theory Spec2Isabelle
  imports Main
begin

section \<open>Python values shared by the modules\<close>

text \<open>
  Exceptions of the Python code are values. Only the exception classes that the
  modelled functions can raise are listed.
\<close>

datatype error = IndexError | ValueError | ParserError

text \<open>
  \<open>str.isspace\<close> on the ASCII range: tab, line feed, vertical tab, form feed,
  carriage return, the four separators \<open>0x1c..0x1f\<close> and the blank. Strings are
  byte strings here, so the model covers ASCII text.
\<close>

definition is_space :: "char \<Rightarrow> bool" where
  "is_space c = (c \<in> set [CHR 0x09, CHR 0x0A, CHR 0x0B, CHR 0x0C, CHR 0x0D,
                            CHR 0x1C, CHR 0x1D, CHR 0x1E, CHR 0x1F, CHR 0x20])"

text \<open>\<open>str.strip()\<close>: whitespace removed at both ends.\<close>

definition strip :: "string \<Rightarrow> string" where
  "strip s = rev (dropWhile is_space (rev (dropWhile is_space s)))"

text \<open>\<open>str.removeprefix(p)\<close> and \<open>str.removesuffix(p)\<close>.\<close>

definition startswith :: "string \<Rightarrow> string \<Rightarrow> bool" where
  "startswith s p = (take (length p) s = p)"

definition endswith :: "string \<Rightarrow> string \<Rightarrow> bool" where
  "endswith s p = (length p \<le> length s \<and> drop (length s - length p) s = p)"

definition removeprefix :: "string \<Rightarrow> string \<Rightarrow> string" where
  "removeprefix s p = (if startswith s p then drop (length p) s else s)"

definition removesuffix :: "string \<Rightarrow> string \<Rightarrow> string" where
  "removesuffix s p = (if endswith s p then take (length s - length p) s else s)"

text \<open>
  \<open>str.split()\<close> without argument: the maximal runs of non-whitespace characters,
  in order. \<open>cur\<close> holds the current run reversed.
\<close>

fun split_aux :: "string \<Rightarrow> string \<Rightarrow> string list" where
  "split_aux cur [] = (if cur = [] then [] else [rev cur])"
| "split_aux cur (c # cs) =
     (if is_space c
      then (if cur = [] then split_aux [] cs else rev cur # split_aux [] cs)
      else split_aux (c # cur) cs)"

definition split_ws :: "string \<Rightarrow> string list" where
  "split_ws s = split_aux [] s"

section \<open>\<open>lib.read_labels\<close>\<close>

text \<open>
  \<open>re.match(r'\[.*\]', label)\<close>: the label starts with an opening bracket and a
  closing bracket follows before any line feed (the dot does not match a line feed).
\<close>

definition is_unit_token :: "string \<Rightarrow> bool" where
  "is_unit_token label =
     (case label of
        [] \<Rightarrow> False
      | c # cs \<Rightarrow> c = CHR ''['' \<and> CHR '']'' \<in> set (takeWhile (\<lambda>d. d \<noteq> CHR 0x0A) cs))"

text \<open>
  The loop over \<open>orig_labels\<close>. A token that is not a unit is appended to
  \<open>labels\<close>; a unit is appended to the last label, and \<open>labels[-1]\<close> of an empty
  list raises \<open>IndexError\<close>.
\<close>

fun merge_labels :: "string list \<Rightarrow> string list \<Rightarrow> error + string list" where
  "merge_labels labels [] = Inr labels"
| "merge_labels labels (label # rest) =
     (if \<not> is_unit_token label then merge_labels (labels @ [label]) rest
      else if labels = [] then Inl IndexError
      else merge_labels (butlast labels @ [last labels @ '' '' @ label]) rest)"

text \<open>
  The first loop of \<open>read_labels\<close> runs over the lines of the file while they
  start with \<open>#\<close>, and keeps the last one.
\<close>

definition comment_block :: "string list \<Rightarrow> string list" where
  "comment_block lines = takeWhile (\<lambda>line. line \<noteq> [] \<and> hd line = CHR ''#'') lines"

text \<open>
  A file is the list of its lines. When no line was a comment, \<open>orig_labels\<close> is
  unbound, the \<open>try\<close> block fails and the function returns the empty list.
\<close>

definition read_labels :: "string list \<Rightarrow> error + string list" where
  "read_labels lines =
     (case comment_block lines of
        [] \<Rightarrow> Inr []
      | c # cs \<Rightarrow> merge_labels [] (split_ws (removeprefix (strip (last (c # cs))) ''#'')))"

text \<open>The tokens of the label row of a file, when it has one.\<close>

definition label_tokens :: "string list \<Rightarrow> string list option" where
  "label_tokens lines =
     (case comment_block lines of
        [] \<Rightarrow> None
      | c # cs \<Rightarrow> Some (split_ws (removeprefix (strip (last (c # cs))) ''#'')))"

section \<open>\<open>live_residuals.read_data\<close>\<close>

text \<open>
  \<open>str.lower()\<close> on ASCII letters and \<open>str.replace(c, '')\<close> for a single
  character \<open>c\<close>.
\<close>

definition lower_char :: "char \<Rightarrow> char" where
  "lower_char c =
     (case map_of (zip ''ABCDEFGHIJKLMNOPQRSTUVWXYZ'' ''abcdefghijklmnopqrstuvwxyz'') c of
        None \<Rightarrow> c
      | Some d \<Rightarrow> d)"

definition lower :: "string \<Rightarrow> string" where
  "lower s = map lower_char s"

definition remove_char :: "char \<Rightarrow> string \<Rightarrow> string" where
  "remove_char c s = filter (\<lambda>d. d \<noteq> c) s"

text \<open>
  \<open>zip(*rows)\<close>: no row gives no column; otherwise there are as many columns as
  the shortest row has entries, and column \<open>j\<close> holds entry \<open>j\<close> of every row.
\<close>

definition zip_star :: "'a list list \<Rightarrow> 'a list list" where
  "zip_star rows =
     (case rows of
        [] \<Rightarrow> []
      | r # rs \<Rightarrow> map (\<lambda>j. map (\<lambda>row. row ! j) rows)
                     [0 ..< fold min (map length rs) (length r)])"

text \<open>A comprehension whose body can raise: the first error ends it.\<close>

fun map_err :: "('a \<Rightarrow> error + 'b) \<Rightarrow> 'a list \<Rightarrow> error + 'b list" where
  "map_err f [] = Inr []"
| "map_err f (x # xs) =
     (case f x of
        Inl e \<Rightarrow> Inl e
      | Inr y \<Rightarrow> (case map_err f xs of Inl e \<Rightarrow> Inl e | Inr ys \<Rightarrow> Inr (y # ys)))"

text \<open>
  The builtin \<open>float\<close> is a parameter: \<open>parse_float s\<close> is \<open>None\<close> where
  \<open>float(s)\<close> raises \<open>ValueError\<close>. \<open>nan\<close> stands for \<open>np.nan\<close>.
\<close>

definition to_number :: "(string \<Rightarrow> 'f option) \<Rightarrow> 'f \<Rightarrow> string \<Rightarrow> error + 'f" where
  "to_number parse_float nan v =
     (if lower v \<noteq> ''n/a''
      then (case parse_float v of None \<Rightarrow> Inl ValueError | Some x \<Rightarrow> Inr x)
      else Inr nan)"

text \<open>The lines of the file that start with \<open>#\<close>, as \<open>read_data\<close> selects them.\<close>

definition hash_lines :: "string list \<Rightarrow> string list" where
  "hash_lines lines = filter (\<lambda>line. startswith line ''#'') lines"

text \<open>
  \<open>read_data\<close> on the lines of the file (the result of \<open>readlines\<close>). Both
  \<open>raise\<close> statements raise \<open>ValueError\<close>.
\<close>

definition read_data ::
  "(string \<Rightarrow> 'f option) \<Rightarrow> 'f \<Rightarrow> string list \<Rightarrow> error + (string list \<times> 'f list list)" where
  "read_data parse_float nan lines =
     (let header = map strip (hash_lines lines);
          data_lines = map split_ws (filter (\<lambda>line. \<not> startswith line ''#'') lines)
      in if 2 \<le> length header \<and> startswith (last header) ''#''
         then (let field_names = split_ws (remove_char CHR ''#'' (last header));
                   transposed_data = zip_star data_lines
               in case map_err (map_err (to_number parse_float nan)) transposed_data of
                    Inl e \<Rightarrow> Inl ValueError
                  | Inr numeric_data \<Rightarrow> Inr (field_names, numeric_data))
         else Inl ValueError)"

section \<open>\<open>lib.get_units\<close>\<close>

text \<open>
  \<open>re.search\<close> for a pattern \<open>pre(.*?)\)\<close>, where \<open>pre\<close> is literal text: at the
  leftmost position where \<open>pre\<close> starts and a closing parenthesis follows before any
  line feed, the group is the text up to the first closing parenthesis. \<open>get_units\<close>
  uses it with \<open>pre\<close> an opening parenthesis, \<open>read_forces\<close> with \<open>forces(\<close>.
\<close>

definition match_group_at :: "string \<Rightarrow> string \<Rightarrow> string option" where
  "match_group_at pre s =
     (if startswith s pre
      then (let rest = drop (length pre) s;
                g = takeWhile (\<lambda>d. d \<noteq> CHR '')'' \<and> d \<noteq> CHR 0x0A) rest
            in if startswith (drop (length g) rest) '')'' then Some g else None)
      else None)"

fun search_group :: "string \<Rightarrow> string \<Rightarrow> string option" where
  "search_group pre [] = match_group_at pre []"
| "search_group pre (c # cs) =
     (case match_group_at pre (c # cs) of
        Some g \<Rightarrow> Some g
      | None \<Rightarrow> search_group pre cs)"

text \<open>
  The tables \<open>UNITS_OF_MEASURE\<close> (a dictionary from names to units) and
  \<open>COMPONENTS_EXT\<close> (the list of component suffixes) are defined in the package's
  \<open>__init__\<close> module; they are parameters here.
\<close>

definition bracketed :: "string \<Rightarrow> string" where
  "bracketed u = '' ['' @ u @ '']''"

text \<open>The loop over \<open>COMPONENTS_EXT\<close>: the first suffix that fits is removed.\<close>

fun remove_component :: "string list \<Rightarrow> string \<Rightarrow> string" where
  "remove_component [] array_name = array_name"
| "remove_component (ext # exts) array_name =
     (if endswith array_name ext then removesuffix array_name ext
      else remove_component exts array_name)"

definition get_units :: "(string \<rightharpoonup> string) \<Rightarrow> string list \<Rightarrow> string \<Rightarrow> string" where
  "get_units UNITS_OF_MEASURE COMPONENTS_EXT array_name =
     (case UNITS_OF_MEASURE array_name of
        Some u \<Rightarrow> bracketed u
      | None \<Rightarrow>
          (let last_try = (\<lambda>name.
                 case UNITS_OF_MEASURE (remove_component COMPONENTS_EXT name) of
                   Some u \<Rightarrow> bracketed u
                 | None \<Rightarrow> [])
           in case search_group ''('' array_name of
                Some g \<Rightarrow>
                  (case UNITS_OF_MEASURE g of
                     Some u \<Rightarrow> bracketed u
                   | None \<Rightarrow> last_try g)
              | None \<Rightarrow> last_try array_name))"

text \<open>
  The name on which the last lookup is attempted: the contents of the first
  parenthesised group when there is one, the name itself otherwise. And the lookup
  on the group's contents.
\<close>

definition rewritten :: "string \<Rightarrow> string" where
  "rewritten array_name =
     (case search_group ''('' array_name of Some g \<Rightarrow> g | None \<Rightarrow> array_name)"

definition group_units :: "(string \<rightharpoonup> string) \<Rightarrow> string \<Rightarrow> string option" where
  "group_units UNITS_OF_MEASURE array_name =
     (case search_group ''('' array_name of Some g \<Rightarrow> UNITS_OF_MEASURE g | None \<Rightarrow> None)"

section \<open>\<open>lib.get_output_filepath\<close>\<close>

text \<open>
  A \<open>pathlib\<close> path of the POSIX flavour: the anchor (empty for a relative path,
  one or two slashes otherwise) and the components after it. The components of a
  parsed path are non-empty, are not a single dot and hold no slash.
\<close>

record path =
  anchor :: string
  parts :: "string list"

definition plain_name :: "string \<Rightarrow> bool" where
  "plain_name s = (s \<noteq> [] \<and> s \<noteq> ''.'' \<and> CHR ''/'' \<notin> set s)"

definition wf_path :: "path \<Rightarrow> bool" where
  "wf_path p = list_all plain_name (parts p)"

text \<open>\<open>Path.name\<close> and \<open>Path.parent\<close>. The parent of a path without components is itself.\<close>

definition path_name :: "path \<Rightarrow> string" where
  "path_name p = (if parts p = [] then [] else last (parts p))"

definition path_parent :: "path \<Rightarrow> path" where
  "path_parent p = p\<lparr>parts := butlast (parts p)\<rparr>"

text \<open>
  \<open>Path.stem\<close> as in Python 3.12 (the first release that has \<open>Path.walk\<close>, which
  the library uses): with \<open>i\<close> the index of the last dot of the name, the name up to
  \<open>i\<close> when \<open>0 < i < len(name) - 1\<close>, the whole name otherwise. A name without a dot
  gives \<open>i = -1\<close>.
\<close>

definition rfind_dot :: "string \<Rightarrow> int" where
  "rfind_dot s =
     (if CHR ''.'' \<in> set s
      then int (length s) - 1 - int (length (takeWhile (\<lambda>c. c \<noteq> CHR ''.'') (rev s)))
      else - 1)"

definition path_stem :: "path \<Rightarrow> string" where
  "path_stem p =
     (let i = rfind_dot (path_name p)
      in if 0 < i \<and> i < int (length (path_name p)) - 1 then take (nat i) (path_name p)
         else path_name p)"

text \<open>\<open>str.split(sep)\<close> for a single character: empty pieces are kept.\<close>

fun split_on_aux :: "char \<Rightarrow> string \<Rightarrow> string \<Rightarrow> string list" where
  "split_on_aux sep cur [] = [rev cur]"
| "split_on_aux sep cur (c # cs) =
     (if c = sep then rev cur # split_on_aux sep [] cs else split_on_aux sep (c # cur) cs)"

definition split_on :: "char \<Rightarrow> string \<Rightarrow> string list" where
  "split_on sep s = split_on_aux sep [] s"

text \<open>
  Parsing a string as a path: the anchor is what the string starts with (two slashes
  exactly, or one slash for one or for three and more), and the components are the
  pieces between slashes that are neither empty nor a single dot.
\<close>

definition parse_path :: "string \<Rightarrow> path" where
  "parse_path s =
     \<lparr>anchor = (if startswith s ''//'' \<and> \<not> startswith s ''///'' then ''//''
                else if startswith s ''/'' then ''/'' else []),
      parts = filter (\<lambda>c. c \<noteq> [] \<and> c \<noteq> ''.'') (split_on CHR ''/'' s)\<rparr>"

text \<open>\<open>p / s\<close> for a string \<open>s\<close>: an anchored \<open>s\<close> replaces \<open>p\<close>.\<close>

definition path_div :: "path \<Rightarrow> string \<Rightarrow> path" where
  "path_div p s =
     (let q = parse_path s
      in if anchor q \<noteq> [] then q else p\<lparr>parts := parts p @ parts q\<rparr>)"

text \<open>
  \<open>str.replace(c, '')\<close> is \<open>remove_char\<close>. The builtin \<open>float\<close> is used for its
  exception only: \<open>is_float s\<close> says that \<open>float(s)\<close> does not raise. The constant
  \<open>EXTENSION\<close> comes from the package's \<open>__init__\<close> module and is a parameter.
\<close>

definition get_output_filepath ::
  "(string \<Rightarrow> bool) \<Rightarrow> string \<Rightarrow> path \<Rightarrow> string \<Rightarrow> path \<times> string \<times> string \<times> string" where
  "get_output_filepath is_float EXTENSION filepath filesuffix =
     (let filename = path_stem filepath;
          timestep = path_name (path_parent filepath);
          timestep = (if is_float timestep then timestep else ''0'');
          outpath = path_parent (path_parent filepath);
          outdirname = path_name outpath;
          outfilename = filename;
          outfilename =
            (if filesuffix \<noteq> []
             then outfilename @ ''_'' @
                    remove_char CHR '' '' (remove_char CHR 0x5C (remove_char CHR ''/'' filesuffix))
             else outfilename);
          outfilename = (if timestep \<noteq> ''0'' then outfilename @ ''_'' @ timestep else outfilename);
          outfilename = outfilename @ EXTENSION;
          outfilepath = path_div outpath outfilename
      in (outfilepath, filename, timestep, outdirname))"

text \<open>The file name of the output as the specification composes it.\<close>

definition output_name :: "string \<Rightarrow> string \<Rightarrow> string \<Rightarrow> string \<Rightarrow> string" where
  "output_name EXTENSION base suffix timestep =
     base
     @ (if suffix \<noteq> [] then ''_'' @ filter (\<lambda>c. c \<notin> {CHR ''/'', CHR 0x5C, CHR '' ''}) suffix else [])
     @ (if timestep \<noteq> ''0'' then ''_'' @ timestep else [])
     @ EXTENSION"

section \<open>\<open>lib.find_files\<close>\<close>

text \<open>
  The directory under \<open>path\<close>: the names of its files and its subdirectories by
  name, in the order in which the file system lists them.
\<close>

datatype dir_tree = Dir (files: "string list") (subdirs: "(string \<times> dir_tree) list")

text \<open>
  \<open>Path.walk(top_down=True)\<close>: the triple of a directory (its path, the names of its
  subdirectories, the names of its files) comes before the triples of its
  subdirectories.
\<close>

definition child :: "path \<Rightarrow> string \<Rightarrow> path" where
  "child p n = p\<lparr>parts := parts p @ [n]\<rparr>"

fun walk :: "path \<Rightarrow> dir_tree \<Rightarrow> (path \<times> string list \<times> string list) list" where
  "walk rootdir (Dir fs subs) =
     (rootdir, map fst subs, fs) # concat (map (\<lambda>sub. walk (child rootdir (fst sub)) (snd sub)) subs)"

text \<open>The files in the order of the two nested loops, each with the directory it lies in.\<close>

definition candidates :: "path \<Rightarrow> dir_tree \<Rightarrow> (path \<times> string) list" where
  "candidates rootdir tree =
     concat (map (\<lambda>(r, ds, fs). map (\<lambda>f. (r, f)) fs) (walk rootdir tree))"

text \<open>
  \<open>PurePath.match(pattern, case_sensitive=...)\<close> as in Python 3.12. The pattern is
  parsed as a path. An anchored pattern has to match the whole path, another pattern
  with components has to match the last components of the path, one component of the
  pattern against one of the path; a pattern without anchor and components raises
  \<open>ValueError\<close>. Matching one component against one name is the parameter
  \<open>fnmatch\<close>, which takes the flag \<open>case_sensitive\<close>, the component of the
  pattern and the name.
\<close>

definition path_match ::
  "(bool \<Rightarrow> string \<Rightarrow> string \<Rightarrow> bool) \<Rightarrow> bool \<Rightarrow> path \<Rightarrow> string \<Rightarrow> error + bool" where
  "path_match fnmatch case_sensitive p pattern =
     (let pat = parse_path pattern
      in if anchor pat \<noteq> []
         then Inr (anchor p = anchor pat \<and>
                   list_all2 (fnmatch case_sensitive) (parts pat) (parts p))
         else if parts pat \<noteq> []
         then Inr (length (parts pat) \<le> length (parts p) \<and>
                   list_all2 (fnmatch case_sensitive) (parts pat)
                     (drop (length (parts p) - length (parts pat)) (parts p)))
         else Inl ValueError)"

text \<open>
  The body of the loops for the remaining candidates: the files yielded, and the
  exception that ended the generator, if any. Both calls of \<open>match\<close> pass
  \<open>case_sensitive=False\<close>. The list comprehension over
  \<open>exceptions\<close> matches every exclusion before \<open>any\<close> looks at the results.
\<close>

fun find_in ::
  "(bool \<Rightarrow> string \<Rightarrow> string \<Rightarrow> bool) \<Rightarrow> string \<Rightarrow> string list \<Rightarrow> (path \<times> string) list
     \<Rightarrow> path list \<times> error option" where
  "find_in fnmatch pattern exceptions [] = ([], None)"
| "find_in fnmatch pattern exceptions ((rootdir, file) # rest) =
     (case path_match fnmatch False (parse_path file) pattern of
        Inl e \<Rightarrow> ([], Some e)
      | Inr False \<Rightarrow> find_in fnmatch pattern exceptions rest
      | Inr True \<Rightarrow>
          (case map_err (\<lambda>exc. path_match fnmatch False (parse_path file) exc) exceptions of
             Inl e \<Rightarrow> ([], Some e)
           | Inr excluded \<Rightarrow>
               if list_ex (\<lambda>b. b) excluded then find_in fnmatch pattern exceptions rest
               else (case find_in fnmatch pattern exceptions rest of
                       (found, e) \<Rightarrow> (path_div rootdir file # found, e))))"

text \<open>
  \<open>find_files\<close>: the files yielded, the exception raised if any, and whether the
  message that no file was found is printed.
\<close>

definition find_files ::
  "(bool \<Rightarrow> string \<Rightarrow> string \<Rightarrow> bool) \<Rightarrow> string \<Rightarrow> path \<Rightarrow> dir_tree \<Rightarrow> string list
     \<Rightarrow> path list \<times> error option \<times> bool" where
  "find_files fnmatch pattern path tree exceptions =
     (case find_in fnmatch pattern exceptions (candidates path tree) of
        (found, e) \<Rightarrow> (found, e, e = None \<and> found = []))"

text \<open>
  A pattern that \<open>match\<close> accepts, and the test the scanner applies to a file name
  when all its patterns are accepted.
\<close>

definition valid_pattern :: "string \<Rightarrow> bool" where
  "valid_pattern pattern = (anchor (parse_path pattern) \<noteq> [] \<or> parts (parse_path pattern) \<noteq> [])"

definition matches :: "(bool \<Rightarrow> string \<Rightarrow> string \<Rightarrow> bool) \<Rightarrow> string \<Rightarrow> string \<Rightarrow> bool" where
  "matches fnmatch file pattern =
     (path_match fnmatch False (parse_path file) pattern = Inr True)"

definition selected :: "(bool \<Rightarrow> string \<Rightarrow> string \<Rightarrow> bool) \<Rightarrow> string \<Rightarrow> string list \<Rightarrow> string \<Rightarrow> bool" where
  "selected fnmatch pattern exceptions file =
     (matches fnmatch file pattern \<and> \<not> list_ex (matches fnmatch file) exceptions)"

text \<open>
  An instance of \<open>fnmatch\<close> for the closed examples: the translation of a pattern
  made of literal characters, \<open>?\<close> and \<open>*\<close>, matched with or without regard to
  case. A component that is a single \<open>*\<close> matches every non-empty name.
\<close>

fun glob :: "bool \<Rightarrow> string \<Rightarrow> string \<Rightarrow> bool" where
  "glob cs [] [] = True"
| "glob cs [] (c # cs') = False"
| "glob cs (p # ps) [] = (p = CHR ''*'' \<and> glob cs ps [])"
| "glob cs (p # ps) (c # cs') =
     (if p = CHR ''*'' then glob cs ps (c # cs') \<or> glob cs (p # ps) cs'
      else (p = CHR ''?'' \<or> (if cs then p = c else lower_char p = lower_char c)) \<and>
           glob cs ps cs')"

definition fnmatch_glob :: "bool \<Rightarrow> string \<Rightarrow> string \<Rightarrow> bool" where
  "fnmatch_glob case_sensitive pat s = (if pat = ''*'' then s \<noteq> [] else glob case_sensitive pat s)"

text \<open>A matcher of components that does not tell names apart by the case of their letters.\<close>

definition ignores_case :: "(string \<Rightarrow> string \<Rightarrow> bool) \<Rightarrow> bool" where
  "ignores_case m = (\<forall>pat s s'. lower s = lower s' \<longrightarrow> m pat s = m pat s')"

text \<open>The names of the files of a tree in the order of the traversal.\<close>

fun all_files :: "dir_tree \<Rightarrow> string list" where
  "all_files (Dir fs subs) = fs @ concat (map (\<lambda>sub. all_files (snd sub)) subs)"

section \<open>\<open>lib.read_file_decorator\<close> and the main program\<close>

text \<open>
  What a file handler can raise: an instance of \<open>Exception\<close> (with the name of its
  class), or of a class that derives from \<open>BaseException\<close> only, such as
  \<open>KeyboardInterrupt\<close>. The handlers \<open>vtk2image\<close>, \<open>read_dat\<close> and
  \<open>read_forces\<close> render and write files; here an undecorated handler is a function
  from the path of the file to what it raises or to what it produces.
\<close>

datatype exn = Exception string | BaseException string

text \<open>What the program prints or produces, in order.\<close>

datatype 'a event =
    Looking string
  | NotFound string
  | Processing path
  | Produced path 'a
  | Failed string exn

text \<open>
  The wrapper that \<open>read_file_decorator\<close> returns: it prints the path, calls the
  handler, and in the \<open>except Exception\<close> branch prints the name of the file with
  the exception and returns \<open>None\<close>. Another exception is not caught.
\<close>

definition read_file_decorator ::
  "(path \<Rightarrow> exn + 'a) \<Rightarrow> path \<Rightarrow> 'a event list \<times> (exn + 'a option)" where
  "read_file_decorator read_file filepath =
     (case read_file filepath of
        Inr v \<Rightarrow> ([Processing filepath, Produced filepath v], Inr (Some v))
      | Inl (Exception c) \<Rightarrow>
          ([Processing filepath, Failed (path_name filepath) (Exception c)], Inr None)
      | Inl (BaseException c) \<Rightarrow> ([Processing filepath], Inl (BaseException c)))"

text \<open>
  A part of the program: what it printed and produced, and the exception that ended
  it, if any. \<open>and_then\<close> runs a second part after a first one that ended normally.
\<close>

type_synonym 'a run = "'a event list \<times> exn option"

definition and_then :: "'a run \<Rightarrow> 'a run \<Rightarrow> 'a run" where
  "and_then a b =
     (case a of
        (evs, Some e) \<Rightarrow> (evs, Some e)
      | (evs, None) \<Rightarrow> (case b of (evs', r) \<Rightarrow> (evs @ evs', r)))"

text \<open>The body of a \<open>for\<close> loop of the main program over the files already yielded.\<close>

fun run_files :: "(path \<Rightarrow> exn + 'a) \<Rightarrow> path list \<Rightarrow> 'a run" where
  "run_files handler [] = ([], None)"
| "run_files handler (file # rest) =
     (case read_file_decorator handler file of
        (evs, Inl e) \<Rightarrow> (evs, Some e)
      | (evs, Inr r) \<Rightarrow> and_then (evs, None) (run_files handler rest))"

definition error_name :: "error \<Rightarrow> string" where
  "error_name e =
     (case e of
        IndexError \<Rightarrow> ''IndexError''
      | ValueError \<Rightarrow> ''ValueError''
      | ParserError \<Rightarrow> ''ParserError'')"

text \<open>
  One \<open>for\<close> loop of the main program over the generator \<open>find_files\<close>: the files
  yielded are handled one after the other, then the generator either raises or ends,
  with its message when it has found nothing.
\<close>

definition scan_and_run ::
  "(bool \<Rightarrow> string \<Rightarrow> string \<Rightarrow> bool) \<Rightarrow> string \<Rightarrow> string list \<Rightarrow> (path \<Rightarrow> exn + 'a)
     \<Rightarrow> path \<times> dir_tree \<Rightarrow> 'a run" where
  "scan_and_run fnmatch pattern exceptions handler target =
     (case find_files fnmatch pattern (fst target) (snd target) exceptions of
        (found, err, nothing) \<Rightarrow>
          and_then ([Looking pattern], None)
            (and_then (run_files handler found)
               (case err of
                  Some e \<Rightarrow> ([], Some (Exception (error_name e)))
                | None \<Rightarrow> (if nothing then [NotFound pattern] else [], None))))"

text \<open>
  The options module is not part of the sources at hand: the paths given on the
  command line, each with the directory tree under it, and the file patterns are
  parameters.
\<close>

record options =
  paths :: "(path \<times> dir_tree) list"
  VTK_FILE :: string
  CLOUD_FILE :: string
  RES_FILE :: string
  DAT_FILE :: string
  XY_FILE :: string
  FORCE_FILE :: string

text \<open>
  The body of the loop over \<open>opt.paths\<close>: five scans in a row. \<open>read_dat\<close> takes
  the keyword arguments \<open>semilogy\<close> and \<open>append_units\<close>, whose defaults are
  \<open>False\<close> and \<open>True\<close>.
\<close>

definition main_path ::
  "(bool \<Rightarrow> string \<Rightarrow> string \<Rightarrow> bool) \<Rightarrow> options \<Rightarrow> (path \<Rightarrow> exn + 'a)
     \<Rightarrow> (bool \<Rightarrow> bool \<Rightarrow> path \<Rightarrow> exn + 'a) \<Rightarrow> (path \<Rightarrow> exn + 'a)
     \<Rightarrow> path \<times> dir_tree \<Rightarrow> 'a run" where
  "main_path fnmatch opt vtk2image read_dat read_forces target =
     and_then (scan_and_run fnmatch (VTK_FILE opt) [CLOUD_FILE opt] vtk2image target)
    (and_then (scan_and_run fnmatch (RES_FILE opt) [] (read_dat True False) target)
    (and_then (scan_and_run fnmatch (DAT_FILE opt) [RES_FILE opt, FORCE_FILE opt]
                 (read_dat False True) target)
    (and_then (scan_and_run fnmatch (XY_FILE opt) [] (read_dat False True) target)
              (scan_and_run fnmatch (FORCE_FILE opt) [] read_forces target))))"

fun main_loop ::
  "(bool \<Rightarrow> string \<Rightarrow> string \<Rightarrow> bool) \<Rightarrow> options \<Rightarrow> (path \<Rightarrow> exn + 'a)
     \<Rightarrow> (bool \<Rightarrow> bool \<Rightarrow> path \<Rightarrow> exn + 'a) \<Rightarrow> (path \<Rightarrow> exn + 'a)
     \<Rightarrow> (path \<times> dir_tree) list \<Rightarrow> 'a run" where
  "main_loop fnmatch opt vtk2image read_dat read_forces [] = ([], None)"
| "main_loop fnmatch opt vtk2image read_dat read_forces (target # rest) =
     and_then (main_path fnmatch opt vtk2image read_dat read_forces target)
       (main_loop fnmatch opt vtk2image read_dat read_forces rest)"

text \<open>
  The main program after the options are parsed: the loop, then \<open>sys.exit(0)\<close>. An
  exception that nothing catches ends the program instead.
\<close>

datatype outcome = Exit int | Uncaught exn

definition main ::
  "(bool \<Rightarrow> string \<Rightarrow> string \<Rightarrow> bool) \<Rightarrow> options \<Rightarrow> (path \<Rightarrow> exn + 'a)
     \<Rightarrow> (bool \<Rightarrow> bool \<Rightarrow> path \<Rightarrow> exn + 'a) \<Rightarrow> (path \<Rightarrow> exn + 'a)
     \<Rightarrow> 'a event list \<times> outcome" where
  "main fnmatch opt vtk2image read_dat read_forces =
     (case main_loop fnmatch opt vtk2image read_dat read_forces (paths opt) of
        (evs, Some e) \<Rightarrow> (evs, Uncaught e)
      | (evs, None) \<Rightarrow> (evs, Exit 0))"

text \<open>
  A handler that raises instances of \<open>Exception\<close> only, the patterns of the options
  being accepted by \<open>match\<close>, and what the wrapper prints and produces for one file.
\<close>

definition raises_exceptions_only :: "(path \<Rightarrow> exn + 'a) \<Rightarrow> bool" where
  "raises_exceptions_only handler = (\<forall>file c. handler file \<noteq> Inl (BaseException c))"

definition valid_options :: "options \<Rightarrow> bool" where
  "valid_options opt =
     list_all valid_pattern
       [VTK_FILE opt, CLOUD_FILE opt, RES_FILE opt, DAT_FILE opt, XY_FILE opt, FORCE_FILE opt]"

definition file_events :: "(path \<Rightarrow> exn + 'a) \<Rightarrow> path \<Rightarrow> 'a event list" where
  "file_events handler file =
     (case handler file of
        Inr v \<Rightarrow> [Processing file, Produced file v]
      | Inl e \<Rightarrow> [Processing file, Failed (path_name file) e])"

text \<open>
  What one scan is to print and produce when every file is handled in isolation: the
  search is announced, every selected file gives the events of its handler, and the
  message follows when no file was selected. For one path, the five scans in a row.
\<close>

definition scan_events ::
  "(bool \<Rightarrow> string \<Rightarrow> string \<Rightarrow> bool) \<Rightarrow> string \<Rightarrow> string list \<Rightarrow> (path \<Rightarrow> exn + 'a)
     \<Rightarrow> path \<times> dir_tree \<Rightarrow> 'a event list" where
  "scan_events fnmatch pattern exceptions handler target =
     (let found = map (\<lambda>(r, f). path_div r f)
                    (filter (\<lambda>(r, f). selected fnmatch pattern exceptions f)
                       (candidates (fst target) (snd target)))
      in Looking pattern # concat (map (file_events handler) found) @
         (if found = [] then [NotFound pattern] else []))"

definition path_events ::
  "(bool \<Rightarrow> string \<Rightarrow> string \<Rightarrow> bool) \<Rightarrow> options \<Rightarrow> (path \<Rightarrow> exn + 'a)
     \<Rightarrow> (bool \<Rightarrow> bool \<Rightarrow> path \<Rightarrow> exn + 'a) \<Rightarrow> (path \<Rightarrow> exn + 'a)
     \<Rightarrow> path \<times> dir_tree \<Rightarrow> 'a event list" where
  "path_events fnmatch opt vtk2image read_dat read_forces target =
     scan_events fnmatch (VTK_FILE opt) [CLOUD_FILE opt] vtk2image target @
     scan_events fnmatch (RES_FILE opt) [] (read_dat True False) target @
     scan_events fnmatch (DAT_FILE opt) [RES_FILE opt, FORCE_FILE opt] (read_dat False True) target @
     scan_events fnmatch (XY_FILE opt) [] (read_dat False True) target @
     scan_events fnmatch (FORCE_FILE opt) [] read_forces target"

text \<open>A handler that fails on one file, and options, for the closed examples.\<close>

definition sample_handler :: "path \<Rightarrow> exn + string" where
  "sample_handler file =
     (if path_name file = ''p.xy'' then Inl (Exception ''ValueError'')
      else Inr (path_stem file @ ''.png''))"

definition sample_options :: options where
  "sample_options =
     \<lparr>paths = [(\<lparr>anchor = [], parts = [''r'']\<rparr>, Dir [''u.xy'', ''p.xy'', ''k.xy''] [])],
      VTK_FILE = ''*.vtk'', CLOUD_FILE = ''c_*'', RES_FILE = ''res*'', DAT_FILE = ''*.dat'',
      XY_FILE = ''*.xy'', FORCE_FILE = ''f*''\<rparr>"

section \<open>\<open>lib.read_forces\<close>\<close>

text \<open>
  The number of contributions: the number of entries of the list in the first
  \<open>forces(...)\<close> of the text, and \<open>0\<close> when the search finds nothing (the
  \<open>except\<close> branch).
\<close>

definition n_contribs :: "string \<Rightarrow> nat" where
  "n_contribs content =
     (case search_group ''forces('' content of
        Some g \<Rightarrow> length (split_ws g)
      | None \<Rightarrow> 0)"

text \<open>The two calls of \<open>replace\<close> that turn the parentheses into blanks.\<close>

definition remove_brackets :: "string \<Rightarrow> string" where
  "remove_brackets content =
     map (\<lambda>c. if c = CHR ''('' \<or> c = CHR '')'' then CHR '' '' else c) content"

text \<open>
  A data frame of pandas read by position: the number of rows and the columns, each
  with one value per row. A data frame built by assignments \<open>df[label] = column\<close>:
  the labels with their columns, in the order of insertion; an assignment to a label
  that is present replaces its column.
\<close>

record 'a frame =
  nrows :: nat
  columns :: "'a list list"

definition wf_frame :: "'a frame \<Rightarrow> bool" where
  "wf_frame data = list_all (\<lambda>c. length c = nrows data) (columns data)"

fun assign :: "string \<Rightarrow> 'v \<Rightarrow> (string \<times> 'v) list \<Rightarrow> (string \<times> 'v) list" where
  "assign label v [] = [(label, v)]"
| "assign label v ((l, w) # rest) =
     (if l = label then (label, v) # rest else (l, w) # assign label v rest)"

text \<open>\<open>data.iloc[:, js]\<close>: an index that is not a column raises \<open>IndexError\<close>.\<close>

definition iloc :: "'a frame \<Rightarrow> nat list \<Rightarrow> error + 'a list list" where
  "iloc data js =
     (if list_all (\<lambda>j. j < length (columns data)) js
      then Inr (map (\<lambda>j. columns data ! j) js)
      else Inl IndexError)"

text \<open>
  \<open>.sum(axis=1)\<close>: one value per row of the frame, the sum of the values of the
  selected columns in that row. The sum of floating point values by pandas is the
  parameter \<open>rsum\<close>.
\<close>

definition sum_axis1 :: "('a list \<Rightarrow> 'a) \<Rightarrow> nat \<Rightarrow> 'a list list \<Rightarrow> 'a list" where
  "sum_axis1 rsum n cs = map (\<lambda>i. rsum (map (\<lambda>c. c ! i) cs)) [0 ..< n]"

text \<open>The loop of \<open>sum_contribs\<close> over the pairs of an index and a label.\<close>

fun sum_loop ::
  "'a frame \<Rightarrow> ('a list \<Rightarrow> 'a) \<Rightarrow> nat \<Rightarrow> (nat \<times> string) list \<Rightarrow> (string \<times> 'a list) list
     \<Rightarrow> error + (string \<times> 'a list) list" where
  "sum_loop data rsum n [] df = Inr df"
| "sum_loop data rsum n ((index, label) # rest) df =
     (let sum_axes = map (\<lambda>k. index + 3 * k) [0 ..< n]
      in case iloc data sum_axes of
           Inl e \<Rightarrow> Inl e
         | Inr cs \<Rightarrow> sum_loop data rsum n rest (assign label (sum_axis1 rsum (nrows data) cs) df))"

text \<open>
  \<open>sum_contribs\<close>, with the frame \<open>data\<close> of the enclosing function and the
  constant \<open>COMPONENTS_EXT\<close> of the package as parameters.
\<close>

definition sum_contribs ::
  "'a frame \<Rightarrow> ('a list \<Rightarrow> 'a) \<Rightarrow> string list \<Rightarrow> nat \<Rightarrow> string \<Rightarrow> nat
     \<Rightarrow> error + (string \<times> 'a list) list" where
  "sum_contribs data rsum COMPONENTS_EXT start_index label n =
     (case iloc data [0] of
        Inl e \<Rightarrow> Inl e
      | Inr cs \<Rightarrow>
          (let df = assign ''Time'' (hd cs) [];
               indices = [start_index ..< start_index + 3];
               labels = map (\<lambda>ext. label @ ext) COMPONENTS_EXT
           in sum_loop data rsum n (zip indices labels) df))"

text \<open>
  \<open>read_forces\<close> on the text of the file: the table of the forces and the table of
  the moments that are handed to \<open>plot_data\<close>. The parser \<open>pd.read_csv\<close> is a
  parameter (\<open>None\<close> where it raises), as are the labels \<open>FORCE_LABEL\<close> and
  \<open>MOMENT_LABEL\<close> of the package.
\<close>

definition read_forces ::
  "(string \<Rightarrow> 'a frame option) \<Rightarrow> ('a list \<Rightarrow> 'a) \<Rightarrow> string list \<Rightarrow> string \<Rightarrow> string \<Rightarrow> string
     \<Rightarrow> error + ((string \<times> 'a list) list \<times> (string \<times> 'a list) list)" where
  "read_forces read_csv rsum COMPONENTS_EXT FORCE_LABEL MOMENT_LABEL content =
     (let n = n_contribs content
      in case read_csv (remove_brackets content) of
           None \<Rightarrow> Inl ParserError
         | Some data \<Rightarrow>
             (case sum_contribs data rsum COMPONENTS_EXT 1 FORCE_LABEL n of
                Inl e \<Rightarrow> Inl e
              | Inr forces \<Rightarrow>
                  (case sum_contribs data rsum COMPONENTS_EXT (1 + 3 * n) MOMENT_LABEL n of
                     Inl e \<Rightarrow> Inl e
                   | Inr moments \<Rightarrow> Inr (forces, moments))))"

text \<open>
  The summed column as the specification words it: in every row, the sum over the
  contributions \<open>k\<close> below \<open>n\<close> of the value in column \<open>base + a + 3k\<close>.
\<close>

definition summed :: "'a frame \<Rightarrow> ('a list \<Rightarrow> 'a) \<Rightarrow> nat \<Rightarrow> nat \<Rightarrow> nat \<Rightarrow> 'a list" where
  "summed data rsum n base a =
     map (\<lambda>i. rsum (map (\<lambda>k. columns data ! (base + a + 3 * k) ! i) [0 ..< n])) [0 ..< nrows data]"

text \<open>
  The component suffixes and labels that give the four distinct column labels of each
  table.
\<close>

definition labels_ok :: "string list \<Rightarrow> string \<Rightarrow> bool" where
  "labels_ok COMPONENTS_EXT label =
     (length COMPONENTS_EXT = 3 \<and> distinct COMPONENTS_EXT \<and>
      list_all (\<lambda>ext. label @ ext \<noteq> ''Time'') COMPONENTS_EXT)"

text \<open>The table of a block: the time column and the three summed columns.\<close>

definition summed_table ::
  "'a frame \<Rightarrow> ('a list \<Rightarrow> 'a) \<Rightarrow> string list \<Rightarrow> string \<Rightarrow> nat \<Rightarrow> nat \<Rightarrow> (string \<times> 'a list) list" where
  "summed_table data rsum COMPONENTS_EXT label n base =
     (''Time'', columns data ! 0) #
     map (\<lambda>a. (label @ COMPONENTS_EXT ! a, summed data rsum n base a)) [0, 1, 2]"

text \<open>
  Two files for the closed examples, with the tables that pandas parses from them once
  the parentheses are blanks: the first line that is not a comment is taken as the header
  of the table, the following lines are its rows. The first file declares two
  contributions; the second has no \<open>forces(...)\<close> in its header and one column.
\<close>

definition sample_forces_text :: string where
  "sample_forces_text =
     ''# Time forces(pressure viscous) moment(pressure viscous)'' @ [CHR 0x0A] @
     ''0 ((0 0 0) (0 0 0)) ((0 0 0) (0 0 0))'' @ [CHR 0x0A] @
     ''1 ((1 3 5) (10 30 50)) ((7 8 9) (1 2 3))'' @ [CHR 0x0A] @
     ''2 ((2 4 6) (20 40 60)) ((7 8 9) (1 2 3))'' @ [CHR 0x0A]"

definition sample_frame :: "int frame" where
  "sample_frame =
     \<lparr>nrows = 2,
      columns = [[1, 2], [1, 2], [3, 4], [5, 6], [10, 20], [30, 40], [50, 60],
                 [7, 7], [8, 8], [9, 9], [1, 1], [2, 2], [3, 3]]\<rparr>"

definition time_only_text :: string where
  "time_only_text = ''# Time'' @ [CHR 0x0A] @ ''0'' @ [CHR 0x0A] @ ''1'' @ [CHR 0x0A] @ ''2'' @ [CHR 0x0A]"

definition time_only_frame :: "int frame" where
  "time_only_frame = \<lparr>nrows = 2, columns = [[1, 2]]\<rparr>"

text \<open>The table of a block when no contribution is declared: every sum is the empty one.\<close>

definition empty_sum_table ::
  "'a frame \<Rightarrow> ('a list \<Rightarrow> 'a) \<Rightarrow> string list \<Rightarrow> string \<Rightarrow> (string \<times> 'a list) list" where
  "empty_sum_table data rsum COMPONENTS_EXT label =
     (''Time'', columns data ! 0) #
     map (\<lambda>a. (label @ COMPONENTS_EXT ! a, replicate (nrows data) (rsum []))) [0, 1, 2]"

section \<open>Properties of \<open>read_labels\<close>\<close>

lemma read_labels_no_comment:
  "comment_block lines = [] \<Longrightarrow> read_labels lines = Inr []"
  by (simp add: read_labels_def)

lemma read_labels_spec_example:
  "read_labels [''#A #B'' @ [CHR 0x0A], ''# col1 col2 [unit2]'' @ [CHR 0x0A], ''1 2'']
     = Inr [''col1'', ''col2 [unit2]'']"
  by (simp add: read_labels_def comment_block_def strip_def is_space_def removeprefix_def
      startswith_def split_ws_def is_unit_token_def)

lemma merge_labels_returns:
  "labels \<noteq> [] \<Longrightarrow> \<exists>r. merge_labels labels tokens = Inr r"
  by (induction tokens arbitrary: labels) auto

lemma read_labels_label_first_returns:
  "label_tokens lines = Some (t # ts) \<Longrightarrow> \<not> is_unit_token t \<Longrightarrow>
     \<exists>r. read_labels lines = Inr r"
  using merge_labels_returns [of "[t]" ts]
  by (auto simp: label_tokens_def read_labels_def split: list.splits)

text \<open>
  Claim C3. \<open>read_labels\<close> is to return a list of labels for every file, each unit
  token merged into the label before it. On a file whose label row starts with a unit
  token the code does not return: the merge branch indexes the empty list of labels and
  the \<open>IndexError\<close> leaves the function, outside the \<open>try\<close> block that turns
  errors into the empty list. The theorem evaluates the code on such a file.
\<close>

theorem read_labels_leading_unit_fails:
  "read_labels [''# [Pa] p''] = Inl IndexError"
  by (simp add: read_labels_def comment_block_def strip_def is_space_def removeprefix_def
      startswith_def split_ws_def is_unit_token_def)

text \<open>
  Claim C8. Whenever the first token of the last leading comment line (after the
  \<open>#\<close>) matches the bracketed-unit pattern, \<open>read_labels\<close> raises
  \<open>IndexError\<close> instead of returning a list of labels.
\<close>

theorem read_labels_unit_first_raises:
  "label_tokens lines = Some (t # ts) \<Longrightarrow> is_unit_token t \<Longrightarrow>
     read_labels lines = Inl IndexError"
  by (auto simp: label_tokens_def read_labels_def split: list.splits)

theorem read_labels_unit_first_raises_witness:
  "label_tokens [''# [m] x'' @ [CHR 0x0A]] = Some [''[m]'', ''x''] \<and>
   is_unit_token ''[m]'' \<and>
   read_labels [''# [m] x'' @ [CHR 0x0A]] = Inl IndexError"
  using read_labels_unit_first_raises [of "[''# [m] x'' @ [CHR 0x0A]]" "''[m]''" "[''x'']"]
  by (simp add: label_tokens_def comment_block_def strip_def is_space_def removeprefix_def
      startswith_def split_ws_def is_unit_token_def)

section \<open>Properties of \<open>read_data\<close>\<close>

lemma last_stripped_header:
  "2 \<le> length (hash_lines lines) \<Longrightarrow>
     last (map strip (hash_lines lines)) = strip (last (hash_lines lines))"
  by (rule last_map) auto

text \<open>
  Claim C10. With fewer than two lines starting with \<open>#\<close> the reader of the live
  monitor raises \<open>ValueError\<close>, whatever the single comment line holds. When it
  returns labels and columns, the file has at least two such lines, the labels are the
  tokens of the last of them with every \<open>#\<close> removed, and the columns are the
  converted columns of the other lines.
\<close>

theorem read_data_needs_two_comment_lines:
  "(length (hash_lines lines) < 2 \<longrightarrow> read_data parse_float nan lines = Inl ValueError) \<and>
   (read_data parse_float nan lines = Inr (names, cols) \<longrightarrow>
      2 \<le> length (hash_lines lines) \<and>
      names = split_ws (remove_char CHR ''#'' (strip (last (hash_lines lines)))) \<and>
      map_err (map_err (to_number parse_float nan))
        (zip_star (map split_ws (filter (\<lambda>line. \<not> startswith line ''#'') lines))) = Inr cols)"
  by (auto simp: read_data_def Let_def last_stripped_header split: if_splits sum.splits)

theorem read_data_needs_two_comment_lines_witness:
  "length (hash_lines [''# Time Ux'' @ [CHR 0x0A], ''1 0.5'' @ [CHR 0x0A]]) < 2 \<and>
   read_data (\<lambda>s. if set s \<subseteq> set ''0123456789.'' then Some s else None) ''nan''
     [''# Time Ux'' @ [CHR 0x0A], ''1 0.5'' @ [CHR 0x0A]] = Inl ValueError \<and>
   read_data (\<lambda>s. if set s \<subseteq> set ''0123456789.'' then Some s else None) ''nan''
     [''# Residuals'' @ [CHR 0x0A], ''# Time Ux'' @ [CHR 0x0A], ''1 0.5'' @ [CHR 0x0A], ''2 N/A'']
     = Inr ([''Time'', ''Ux''], [[''1'', ''2''], [''0.5'', ''nan'']]) \<and>
   2 \<le> length (hash_lines
     [''# Residuals'' @ [CHR 0x0A], ''# Time Ux'' @ [CHR 0x0A], ''1 0.5'' @ [CHR 0x0A], ''2 N/A''])"
  using
    read_data_needs_two_comment_lines
      [of "[''# Time Ux'' @ [CHR 0x0A], ''1 0.5'' @ [CHR 0x0A]]"
          "\<lambda>s. if set s \<subseteq> set ''0123456789.'' then Some s else None" "''nan''" "[]" "[]"]
    read_data_needs_two_comment_lines
      [of "[''# Residuals'' @ [CHR 0x0A], ''# Time Ux'' @ [CHR 0x0A], ''1 0.5'' @ [CHR 0x0A],
            ''2 N/A'']"
          "\<lambda>s. if set s \<subseteq> set ''0123456789.'' then Some s else None" "''nan''"
          "[''Time'', ''Ux'']" "[[''1'', ''2''], [''0.5'', ''nan'']]"]
  by (simp add: read_data_def hash_lines_def startswith_def strip_def is_space_def split_ws_def
      remove_char_def zip_star_def to_number_def lower_def lower_char_def Let_def upt_conv_Cons)

section \<open>Properties of \<open>get_units\<close>\<close>

lemma remove_component_find:
  "find (endswith name) exts = Some ext \<Longrightarrow> remove_component exts name = removesuffix name ext"
  by (induction exts) (auto split: if_splits)

lemma remove_component_none:
  "find (endswith name) exts = None \<Longrightarrow> remove_component exts name = name"
  by (induction exts) (auto split: if_splits)

text \<open>
  Claim C5. The unit resolver tries, in this order: the name itself in the table; the
  contents of the parenthesised group, when the name has one; the (possibly rewritten)
  name without the first component suffix of the list it ends with. When no suffix fits
  the result is the empty string. Every non-empty result is a blank followed by a unit
  of the table in square brackets.
\<close>

theorem get_units_resolution_order:
  "(U name = Some u \<longrightarrow> get_units U exts name = '' ['' @ u @ '']'') \<and>
   (U name = None \<and> group_units U name = Some u \<longrightarrow>
      get_units U exts name = '' ['' @ u @ '']'') \<and>
   (U name = None \<and> group_units U name = None \<and>
    find (endswith (rewritten name)) exts = Some ext \<longrightarrow>
      get_units U exts name =
        (case U (removesuffix (rewritten name) ext) of
           Some v \<Rightarrow> '' ['' @ v @ '']''
         | None \<Rightarrow> [])) \<and>
   (U name = None \<and> group_units U name = None \<and>
    find (endswith (rewritten name)) exts = None \<longrightarrow>
      get_units U exts name = []) \<and>
   (get_units U exts name \<noteq> [] \<longrightarrow>
      (\<exists>v \<in> ran U. get_units U exts name = '' ['' @ v @ '']''))"
  by (auto simp: get_units_def rewritten_def group_units_def remove_component_find
      remove_component_none bracketed_def ran_def split: option.splits)

theorem get_units_resolution_order_witness:
  "map_of [(''U'', ''m/s''), (''p'', ''Pa'')] ''U'' = Some ''m/s'' \<and>
   get_units (map_of [(''U'', ''m/s''), (''p'', ''Pa'')]) [''_x'', ''_y'', ''_z''] ''U''
     = '' [m/s]'' \<and>
   group_units (map_of [(''U'', ''m/s''), (''p'', ''Pa'')]) ''mag(U)'' = Some ''m/s'' \<and>
   get_units (map_of [(''U'', ''m/s''), (''p'', ''Pa'')]) [''_x'', ''_y'', ''_z''] ''mag(U)''
     = '' [m/s]'' \<and>
   group_units (map_of [(''U'', ''m/s''), (''p'', ''Pa'')]) ''grad(p_y)'' = None \<and>
   find (endswith (rewritten ''grad(p_y)'')) [''_x'', ''_y'', ''_z''] = Some ''_y'' \<and>
   get_units (map_of [(''U'', ''m/s''), (''p'', ''Pa'')]) [''_x'', ''_y'', ''_z''] ''grad(p_y)''
     = '' [Pa]'' \<and>
   find (endswith (rewritten ''k'')) [''_x'', ''_y'', ''_z''] = None \<and>
   get_units (map_of [(''U'', ''m/s''), (''p'', ''Pa'')]) [''_x'', ''_y'', ''_z''] ''k'' = []"
  using
    get_units_resolution_order [of "map_of [(''U'', ''m/s''), (''p'', ''Pa'')]" "''U''" "''m/s''"
      "[''_x'', ''_y'', ''_z'']" "''_x''"]
    get_units_resolution_order [of "map_of [(''U'', ''m/s''), (''p'', ''Pa'')]" "''mag(U)''"
      "''m/s''" "[''_x'', ''_y'', ''_z'']" "''_x''"]
    get_units_resolution_order [of "map_of [(''U'', ''m/s''), (''p'', ''Pa'')]" "''grad(p_y)''"
      "''m/s''" "[''_x'', ''_y'', ''_z'']" "''_y''"]
    get_units_resolution_order [of "map_of [(''U'', ''m/s''), (''p'', ''Pa'')]" "''k''" "''m/s''"
      "[''_x'', ''_y'', ''_z'']" "''_y''"]
  by (simp add: get_units_def rewritten_def group_units_def bracketed_def match_group_at_def
      startswith_def endswith_def removesuffix_def Let_def)

section \<open>Properties of \<open>get_output_filepath\<close>\<close>

lemma split_on_aux_plain: "sep \<notin> set s \<Longrightarrow> split_on_aux sep cur s = [rev cur @ s]"
  by (induction s arbitrary: cur) auto

lemma parse_path_plain: "plain_name s \<Longrightarrow> parse_path s = \<lparr>anchor = [], parts = [s]\<rparr>"
  by (cases s) (auto simp: plain_name_def parse_path_def split_on_def split_on_aux_plain startswith_def)

lemma path_div_plain: "plain_name s \<Longrightarrow> path_div p s = p\<lparr>parts := parts p @ [s]\<rparr>"
  by (simp add: path_div_def parse_path_plain)

lemma path_div_plain_parent: "plain_name s \<Longrightarrow> path_parent (path_div p s) = p \<and> path_name (path_div p s) = s"
  by (simp add: path_div_plain path_parent_def path_name_def)

lemma remove_three_chars: "remove_char CHR '' '' (remove_char CHR 0x5C (remove_char CHR ''/'' s)) = filter (\<lambda>c. c \<notin> {CHR ''/'', CHR 0x5C, CHR '' ''}) s"
  by (induction s) (auto simp: remove_char_def)

lemma path_name_no_slash: "wf_path p \<Longrightarrow> CHR ''/'' \<notin> set (path_name p)"
  by (cases "parts p" rule: rev_cases) (auto simp: wf_path_def path_name_def plain_name_def)

lemma wf_parent: "wf_path p \<Longrightarrow> wf_path (path_parent p)"
  by (cases "parts p" rule: rev_cases) (auto simp: wf_path_def path_parent_def)

lemma path_stem_no_slash: "wf_path p \<Longrightarrow> CHR ''/'' \<notin> set (path_stem p)"
  using path_name_no_slash[of p] by (auto simp: path_stem_def Let_def dest: in_set_takeD)

lemma output_name_plain:
  assumes "CHR ''/'' \<notin> set base" "CHR ''/'' \<notin> set ts" "CHR ''/'' \<notin> set EXT" "2 \<le> length EXT"
  shows "plain_name (output_name EXT base suffix ts)"
proof -
  have "length (output_name EXT base suffix ts) \<ge> 2" using assms(4) by (simp add: output_name_def)
  then have "output_name EXT base suffix ts \<noteq> [] \<and> output_name EXT base suffix ts \<noteq> ''.''"
    by auto
  moreover have "CHR ''/'' \<notin> set (output_name EXT base suffix ts)"
    using assms by (auto simp: output_name_def)
  ultimately show ?thesis by (simp add: plain_name_def)
qed

lemma get_output_filepath_eq: "get_output_filepath is_float EXT fp suffix =
   (path_div (path_parent (path_parent fp)) (output_name EXT (path_stem fp) suffix 
       (if is_float (path_name (path_parent fp)) then path_name (path_parent fp) else ''0'')),
    path_stem fp,
    (if is_float (path_name (path_parent fp)) then path_name (path_parent fp) else ''0''),
    path_name (path_parent (path_parent fp)))"
  by (simp add: get_output_filepath_def Let_def output_name_def remove_three_chars)

text \<open>
  Claim C2. For every input path the resolver returns as timestep the name of the
  parent directory when that name parses as a floating point number and \<open>0\<close>
  otherwise. The output path is the grandparent directory joined with the file name
  composed of the base name, an underscore and the suffix without slashes, backslashes
  and blanks when a non-empty suffix is given, an underscore and the timestep exactly
  when the timestep is not \<open>0\<close>, and the output extension. For a parsed path and
  an extension of at least two characters without a slash, this name is the last
  component of the output path and the grandparent directory is its parent.
\<close>

theorem get_output_filepath_resolves:
 "get_output_filepath is_float EXT fp suffix = (out, base, ts, dir) \<Longrightarrow>
   base = path_stem fp \<and>
   ts = (if is_float (path_name (path_parent fp)) then path_name (path_parent fp) else ''0'') \<and>
   out = path_div (path_parent (path_parent fp)) (output_name EXT base suffix ts) \<and>
   (wf_path fp \<and> CHR ''/'' \<notin> set EXT \<and> 2 \<le> length EXT \<longrightarrow>
      path_parent out = path_parent (path_parent fp) \<and> path_name out = output_name EXT base suffix ts)"
proof -
  assume a: "get_output_filepath is_float EXT fp suffix = (out, base, ts, dir)"
  have b: "base = path_stem fp" and c: "ts = (if is_float (path_name (path_parent fp)) then path_name (path_parent fp) else ''0'')"
    and d: "out = path_div (path_parent (path_parent fp)) (output_name EXT base suffix ts)"
    using a unfolding get_output_filepath_eq by auto
  have "path_parent out = path_parent (path_parent fp) \<and> path_name out = output_name EXT base suffix ts"
    if w: "wf_path fp" "CHR ''/'' \<notin> set EXT" "2 \<le> length EXT"
  proof -
    have "CHR ''/'' \<notin> set ts" using c path_name_no_slash[OF wf_parent[OF w(1)]] by (auto split: if_splits)
    moreover have "CHR ''/'' \<notin> set base" using b path_stem_no_slash[OF w(1)] by simp
    ultimately have "plain_name (output_name EXT base suffix ts)" using w by (intro output_name_plain) auto
    then show ?thesis unfolding d by (rule path_div_plain_parent)
  qed
  with b c d show ?thesis by blast
qed


lemmas get_output_filepath_eval = get_output_filepath_def Let_def path_stem_def path_name_def path_parent_def rfind_dot_def
      path_div_def parse_path_def split_on_def startswith_def remove_char_def output_name_def
      wf_path_def plain_name_def

theorem get_output_filepath_resolves_witness:
  "get_output_filepath (\<lambda>s. s \<noteq> [] \<and> set s \<subseteq> set ''0123456789.'') ''.png''
     \<lparr>anchor = [], parts = [''root'', ''case'', ''kind'', ''3.5'', ''field.vtk'']\<rparr> []
     = (\<lparr>anchor = [], parts = [''root'', ''case'', ''kind'', ''field_3.5.png'']\<rparr>,
        ''field'', ''3.5'', ''kind'') \<and>
   wf_path \<lparr>anchor = [], parts = [''root'', ''case'', ''kind'', ''3.5'', ''field.vtk'']\<rparr> \<and>
   CHR ''/'' \<notin> set ''.png'' \<and> 2 \<le> length ''.png'' \<and>
   path_parent \<lparr>anchor = [], parts = [''root'', ''case'', ''kind'', ''field_3.5.png'']\<rparr>
     = \<lparr>anchor = [], parts = [''root'', ''case'', ''kind'']\<rparr> \<and>
   path_name \<lparr>anchor = [], parts = [''root'', ''case'', ''kind'', ''field_3.5.png'']\<rparr>
     = ''field_3.5.png''"
  using get_output_filepath_resolves [of "\<lambda>s. s \<noteq> [] \<and> set s \<subseteq> set ''0123456789.''" "''.png''"
      "\<lparr>anchor = [], parts = [''root'', ''case'', ''kind'', ''3.5'', ''field.vtk'']\<rparr>" "[]"
      "\<lparr>anchor = [], parts = [''root'', ''case'', ''kind'', ''field_3.5.png'']\<rparr>"
      "''field''" "''3.5''" "''kind''"]
  by (simp add: get_output_filepath_eval)

lemma get_output_filepath_non_numeric_dir:
  "get_output_filepath (\<lambda>s. s \<noteq> [] \<and> set s \<subseteq> set ''0123456789.'') ''.png''
     \<lparr>anchor = [], parts = [''root'', ''case'', ''kind'', ''badname'', ''field.vtk'']\<rparr> ''mag(U) / x''
     = (\<lparr>anchor = [], parts = [''root'', ''case'', ''kind'', ''field_mag(U)x.png'']\<rparr>,
        ''field'', ''0'', ''kind'')"
  by (simp add: get_output_filepath_eval)

section \<open>Properties of \<open>find_files\<close>\<close>

lemma path_match_valid:
  "valid_pattern pattern \<Longrightarrow>
     path_match fm cs p pattern = Inr (path_match fm cs p pattern = Inr True)"
  by (auto simp: valid_pattern_def path_match_def Let_def)

lemma map_err_total:
  "(\<And>x. x \<in> set xs \<Longrightarrow> f x = Inr (g x)) \<Longrightarrow> map_err f xs = Inr (map g xs)"
  by (induction xs) auto

lemma exclusions_valid:
  "list_all valid_pattern exceptions \<Longrightarrow>
     map_err (\<lambda>exc. path_match fm False (parse_path file) exc) exceptions
       = Inr (map (matches fm file) exceptions)"
  by (rule map_err_total) (auto simp: list_all_iff matches_def path_match_valid [symmetric])

lemma list_ex_map_id: "list_ex (\<lambda>b. b) (map f xs) = list_ex f xs"
  by (induction xs) auto

lemma find_in_valid:
  assumes "valid_pattern pattern" "list_all valid_pattern exceptions"
  shows "find_in fm pattern exceptions cs =
    (map (\<lambda>(r, f). path_div r f) (filter (\<lambda>(r, f). selected fm pattern exceptions f) cs), None)"
proof (induction cs)
  case Nil
  then show ?case by simp
next
  case (Cons c cs)
  obtain r f where c: "c = (r, f)" by (cases c)
  show ?case
  proof (cases "matches fm f pattern")
    case True
    then have "path_match fm False (parse_path f) pattern = Inr True"
      by (simp add: matches_def)
    then show ?thesis using Cons True
      by (simp add: c exclusions_valid [OF assms(2)] list_ex_map_id selected_def)
  next
    case False
    then have "path_match fm False (parse_path f) pattern = Inr False"
      using path_match_valid [OF assms(1), of fm False "parse_path f"] by (simp add: matches_def)
    then show ?thesis using Cons False by (simp add: c selected_def)
  qed
qed

lemma concat_concat_map:
  "concat (concat (map (\<lambda>x. map g (h x)) xs)) = concat (map (\<lambda>x. concat (map g (h x))) xs)"
  by (induction xs) auto

lemma candidates_Dir:
  "candidates rootdir (Dir fs subs) =
     map (\<lambda>f. (rootdir, f)) fs @
     concat (map (\<lambda>sub. candidates (child rootdir (fst sub)) (snd sub)) subs)"
  by (simp add: candidates_def map_concat comp_def concat_concat_map)

lemma candidates_names: "map snd (candidates rootdir tree) = all_files tree"
proof (induction tree arbitrary: rootdir)
  case (Dir fs subs)
  have ih: "map snd (candidates r (snd sub)) = all_files (snd sub)" if "sub \<in> set subs" for sub r
    using Dir [OF that, of "snd sub" r] by (cases sub) simp
  have "map snd (concat (map (\<lambda>sub. candidates (child rootdir (fst sub)) (snd sub)) subs)) =
        concat (map (\<lambda>sub. map snd (candidates (child rootdir (fst sub)) (snd sub))) subs)"
    by (simp add: map_concat comp_def)
  also have "\<dots> = concat (map (\<lambda>sub. all_files (snd sub)) subs)"
    using ih by (simp cong: map_cong)
  finally show ?case by (simp add: candidates_Dir comp_def)
qed

lemma no_match_multi:
  assumes "plain_name f"
    and "anchor (parse_path pattern) \<noteq> [] \<or> 2 \<le> length (parts (parse_path pattern))"
  shows "path_match fm False (parse_path f) pattern = Inr False"
  using assms by (auto simp: path_match_def Let_def parse_path_plain)

lemma match_single:
  assumes "plain_name f" "parse_path pattern = \<lparr>anchor = [], parts = [p]\<rparr>"
  shows "matches fm f pattern = fm False p f"
  using assms by (simp add: matches_def path_match_def Let_def parse_path_plain)

lemma find_in_none:
  assumes "list_all (\<lambda>(r, f). path_match fm False (parse_path f) pattern = Inr False) cs"
  shows "find_in fm pattern exceptions cs = ([], None)"
  using assms by (induction cs) auto

lemma names_of_selected:
  "list_all plain_name (map snd cs) \<Longrightarrow>
     map path_name (map (\<lambda>(r, f). path_div r f) (filter (\<lambda>(r, f). P f) cs))
       = filter P (map snd cs)"
  by (induction cs) (auto simp: path_div_plain path_name_def)

text \<open>Scans of a small tree, evaluated.\<close>

lemmas find_files_eval = find_files_def candidates_def child_def path_match_def parse_path_def
  split_on_def startswith_def path_div_def Let_def fnmatch_glob_def lower_char_def

lemma sample_patterns_valid:
  "valid_pattern ''*.xy''" "valid_pattern ''*.dat''" "list_all valid_pattern [''c_*'']"
  "2 \<le> length (parts (parse_path ''s/*.xy''))"
  by (simp_all add: valid_pattern_def parse_path_def split_on_def startswith_def)

lemma sample_scan:
  "find_files fnmatch_glob ''*.xy'' \<lparr>anchor = [], parts = [''r'']\<rparr>
     (Dir [''u.XY'', ''log''] [(''s'', Dir [''p.xy'', ''c_p.xy''] [])]) [''c_*'']
     = ([\<lparr>anchor = [], parts = [''r'', ''u.XY'']\<rparr>,
         \<lparr>anchor = [], parts = [''r'', ''s'', ''p.xy'']\<rparr>], None, False)"
  by (simp add: find_files_eval)

lemma sample_scan_empty:
  "find_files fnmatch_glob ''*.dat'' \<lparr>anchor = [], parts = [''r'']\<rparr>
     (Dir [''u.XY'', ''log''] [(''s'', Dir [''p.xy'', ''c_p.xy''] [])]) [''c_*'']
     = ([], None, True)"
  by (simp add: find_files_eval)

lemma sample_scan_two_components:
  "find_files fnmatch_glob ''s/*.xy'' \<lparr>anchor = [], parts = [''r'']\<rparr>
     (Dir [''u.XY'', ''log''] [(''s'', Dir [''p.xy'', ''c_p.xy''] [])]) [] = ([], None, True)"
  by (simp add: find_files_eval)

lemma sample_tree_plain:
  "list_all plain_name (all_files (Dir [''u.XY'', ''log''] [(''s'', Dir [''p.xy'', ''c_p.xy''] [])]))"
  by (simp add: plain_name_def)

text \<open>A pattern without components is rejected at the first file met.\<close>

lemma find_files_empty_pattern_raises:
  "find_files fm [] rootdir (Dir (f # fs) subs) exceptions = ([], Some ValueError, False)"
  by (simp add: find_files_def candidates_def path_match_def parse_path_def split_on_def
      startswith_def)

lemma glob_lower:
  "\<not> cs \<Longrightarrow> map lower_char s = map lower_char s' \<Longrightarrow> glob cs p s = glob cs p s'"
proof (induction cs p s arbitrary: s' rule: glob.induct)
  case (1 cs)
  then show ?case by simp
next
  case (2 cs c cs')
  from 2(2) obtain d ds where "s' = d # ds" by (cases s') auto
  then show ?case by simp
next
  case (3 cs p ps)
  from 3(3) have "s' = []" by simp
  then show ?case by simp
next
  case (4 cs p ps c cs')
  from 4(5) obtain d ds where s': "s' = d # ds" and h: "lower_char c = lower_char d"
    and t: "map lower_char cs' = map lower_char ds" by (cases s') auto
  show ?case
  proof (cases "p = CHR ''*''")
    case True
    have "glob cs ps (c # cs') = glob cs ps (d # ds)"
      using 4(1) [OF True 4(4), of "d # ds"] h t by simp
    moreover have "glob cs (p # ps) cs' = glob cs (p # ps) ds"
      using 4(2) [OF True 4(4) t] .
    ultimately show ?thesis unfolding s' using True by simp
  next
    case False
    have "glob cs ps cs' = glob cs ps ds"
      using 4(3) [OF False 4(4) t] .
    then show ?thesis unfolding s' using False 4(4) h by simp
  qed
qed


lemma fnmatch_glob_ignores_case: "ignores_case (fnmatch_glob False)"
proof -
  have "fnmatch_glob False pat s = fnmatch_glob False pat s'" if "lower s = lower s'" for pat s s'
  proof -
    have m: "map lower_char s = map lower_char s'" using that by (simp add: lower_def)
    then have "length s = length s'" by (rule map_eq_imp_length_eq)
    then have "(s = []) = (s' = [])" by auto
    moreover have "glob False pat s = glob False pat s'" using m by (intro glob_lower) simp
    ultimately show ?thesis by (simp add: fnmatch_glob_def)
  qed
  then show ?thesis unfolding ignores_case_def by blast
qed


lemma matches_ignores_case:
  assumes "ignores_case (fm False)" "plain_name f" "plain_name f'" "lower f = lower f'"
  shows "matches fm f pattern = matches fm f' pattern"
proof -
  have e: "fm False q f = fm False q f'" for q
    using assms(1,4) unfolding ignores_case_def by blast
  show ?thesis
  proof (cases "parts (parse_path pattern)")
    case Nil
    then show ?thesis
      by (simp add: matches_def path_match_def Let_def parse_path_plain [OF assms(2)]
          parse_path_plain [OF assms(3)])
  next
    case (Cons q qs)
    show ?thesis
    proof (cases qs)
      case Nil
      then show ?thesis using Cons e
        by (simp add: matches_def path_match_def Let_def parse_path_plain [OF assms(2)]
            parse_path_plain [OF assms(3)])
    next
      case (Cons q' qs')
      then show ?thesis using \<open>parts (parse_path pattern) = q # qs\<close>
        by (simp add: matches_def path_match_def Let_def parse_path_plain [OF assms(2)]
            parse_path_plain [OF assms(3)])
    qed
  qed
qed

lemma selected_ignores_case:
  assumes "ignores_case (fm False)" "plain_name f" "plain_name f'" "lower f = lower f'"
  shows "selected fm pattern exceptions f = selected fm pattern exceptions f'"
proof -
  have "matches fm f pattern' = matches fm f' pattern'" for pattern'
    using assms by (rule matches_ignores_case)
  then have "matches fm f = matches fm f'" by (intro ext)
  then show ?thesis by (simp add: selected_def)
qed

lemma sample_names:
  "plain_name ''u.XY''" "plain_name ''U.xy''" "lower ''u.XY'' = lower ''U.xy''"
  "selected fnmatch_glob ''*.xy'' [''c_*''] ''u.XY''"
  "selected fnmatch_glob ''*.xy'' [''c_*''] ''U.xy''"
  by (simp_all add: plain_name_def lower_def lower_char_def selected_def matches_def
      path_match_def parse_path_def split_on_def startswith_def Let_def fnmatch_glob_def)

text \<open>
  Claim C4, as stated: for every pattern and list of exclusions, a scan without match
  gives an empty sequence rather than an error. With the empty pattern, or with an empty
  exclusion once a file matches the pattern, \<open>match\<close> raises \<open>ValueError\<close> at
  the first file and the scan ends with this exception.
\<close>

theorem find_files_empty_pattern_is_error:
  "find_files fnmatch_glob [] \<lparr>anchor = [], parts = [''r'']\<rparr> (Dir [''u.XY''] []) []
     = ([], Some ValueError, False) \<and>
   find_files fnmatch_glob ''*.xy'' \<lparr>anchor = [], parts = [''r'']\<rparr> (Dir [''u.XY''] []) [[]]
     = ([], Some ValueError, False)"
  by (simp add: find_files_eval)

text \<open>
  Claim C4, amended. For every directory, and for every pattern and list of exclusions
  that \<open>match\<close> accepts (each has at least one component or an anchor), the scanner
  yields exactly the files, in the order of the traversal, whose name matches the pattern
  and none of the exclusions, and raises nothing. A file that matches the pattern and an
  exclusion is therefore not yielded, and when no file is selected the sequence is empty,
  no exception is raised and the message is printed. Every match is made with
  \<open>case_sensitive=False\<close>: with a matcher of components that honours this flag,
  two names that differ by the case of their letters only are selected alike.
\<close>

theorem find_files_yields_selected:
  "(valid_pattern pattern \<and> list_all valid_pattern exceptions \<longrightarrow>
      fst (find_files fm pattern rootdir tree exceptions) =
        map (\<lambda>(r, f). path_div r f)
          (filter (\<lambda>(r, f). selected fm pattern exceptions f) (candidates rootdir tree)) \<and>
      fst (snd (find_files fm pattern rootdir tree exceptions)) = None \<and>
      (filter (\<lambda>(r, f). selected fm pattern exceptions f) (candidates rootdir tree) = [] \<longrightarrow>
         find_files fm pattern rootdir tree exceptions = ([], None, True))) \<and>
   (ignores_case (fm False) \<and> plain_name name1 \<and> plain_name name2 \<and>
    lower name1 = lower name2 \<longrightarrow>
      selected fm pattern exceptions name1 = selected fm pattern exceptions name2)"
proof (intro conjI impI)
  assume v: "valid_pattern pattern \<and> list_all valid_pattern exceptions"
  then show "fst (find_files fm pattern rootdir tree exceptions) =
        map (\<lambda>(r, f). path_div r f)
          (filter (\<lambda>(r, f). selected fm pattern exceptions f) (candidates rootdir tree))"
    by (simp add: find_files_def find_in_valid)
  from v show "fst (snd (find_files fm pattern rootdir tree exceptions)) = None"
    by (simp add: find_files_def find_in_valid)
  assume "filter (\<lambda>(r, f). selected fm pattern exceptions f) (candidates rootdir tree) = []"
  with v show "find_files fm pattern rootdir tree exceptions = ([], None, True)"
    by (simp add: find_files_def find_in_valid)
next
  assume "ignores_case (fm False) \<and> plain_name name1 \<and> plain_name name2 \<and>
    lower name1 = lower name2"
  then show "selected fm pattern exceptions name1 = selected fm pattern exceptions name2"
    by (intro selected_ignores_case) auto
qed

theorem find_files_yields_selected_witness:
  "valid_pattern ''*.xy'' \<and> list_all valid_pattern [''c_*''] \<and>
   find_files fnmatch_glob ''*.xy'' \<lparr>anchor = [], parts = [''r'']\<rparr>
     (Dir [''u.XY'', ''log''] [(''s'', Dir [''p.xy'', ''c_p.xy''] [])]) [''c_*'']
     = ([\<lparr>anchor = [], parts = [''r'', ''u.XY'']\<rparr>,
         \<lparr>anchor = [], parts = [''r'', ''s'', ''p.xy'']\<rparr>], None, False) \<and>
   valid_pattern ''*.dat'' \<and>
   find_files fnmatch_glob ''*.dat'' \<lparr>anchor = [], parts = [''r'']\<rparr>
     (Dir [''u.XY'', ''log''] [(''s'', Dir [''p.xy'', ''c_p.xy''] [])]) [''c_*'']
     = ([], None, True) \<and>
   ignores_case (fnmatch_glob False) \<and> plain_name ''u.XY'' \<and> plain_name ''U.xy'' \<and>
   lower ''u.XY'' = lower ''U.xy'' \<and>
   selected fnmatch_glob ''*.xy'' [''c_*''] ''u.XY'' \<and>
   selected fnmatch_glob ''*.xy'' [''c_*''] ''U.xy''"
  using
    find_files_yields_selected [of "''*.xy''" "[''c_*'']" fnmatch_glob
      "\<lparr>anchor = [], parts = [''r'']\<rparr>"
      "Dir [''u.XY'', ''log''] [(''s'', Dir [''p.xy'', ''c_p.xy''] [])]" "''u.XY''" "''U.xy''"]
    find_files_yields_selected [of "''*.dat''" "[''c_*'']" fnmatch_glob
      "\<lparr>anchor = [], parts = [''r'']\<rparr>"
      "Dir [''u.XY'', ''log''] [(''s'', Dir [''p.xy'', ''c_p.xy''] [])]" "''u.XY''" "''U.xy''"]
    sample_patterns_valid sample_scan sample_scan_empty fnmatch_glob_ignores_case sample_names
  by simp

text \<open>
  Claim C9, as stated: any pattern that holds a path separator matches no file. The
  pattern \<open>./*.xy\<close> holds one, is parsed to the single component \<open>*.xy\<close>, and the
  file \<open>u.XY\<close> is yielded.
\<close>

theorem find_files_separator_pattern_matches:
  "CHR ''/'' \<in> set ''./*.xy'' \<and>
   find_files fnmatch_glob ''./*.xy'' \<lparr>anchor = [], parts = [''r'']\<rparr> (Dir [''u.XY''] []) []
     = ([\<lparr>anchor = [], parts = [''r'', ''u.XY'']\<rparr>], None, False)"
  by (simp add: find_files_eval)

text \<open>
  Claim C9, amended. The scanner matches the pattern and every exclusion against the
  name of the file alone: a pattern of one component is matched as that component
  against the name; a pattern that is parsed to two or more components, or is anchored,
  matches no file at all; and the names of the files yielded are the selected names among
  those met during the traversal, whatever the directories they lie in.
\<close>

theorem find_files_base_name_only:
  "list_all plain_name (all_files tree) \<longrightarrow>
     (parse_path pattern = \<lparr>anchor = [], parts = [p]\<rparr> \<longrightarrow>
        filter (\<lambda>f. matches fm f pattern) (all_files tree) = filter (fm False p) (all_files tree)) \<and>
     (anchor (parse_path pattern) \<noteq> [] \<or> 2 \<le> length (parts (parse_path pattern)) \<longrightarrow>
        find_files fm pattern rootdir tree exceptions = ([], None, True)) \<and>
     (valid_pattern pattern \<and> list_all valid_pattern exceptions \<longrightarrow>
        map path_name (fst (find_files fm pattern rootdir tree exceptions)) =
          filter (selected fm pattern exceptions) (all_files tree))"
proof (intro impI conjI)
  assume pl: "list_all plain_name (all_files tree)"
  { assume "parse_path pattern = \<lparr>anchor = [], parts = [p]\<rparr>"
    then show "filter (\<lambda>f. matches fm f pattern) (all_files tree) = filter (fm False p) (all_files tree)"
      using pl by (intro filter_cong) (auto simp: list_all_iff match_single) }
  { assume "anchor (parse_path pattern) \<noteq> [] \<or> 2 \<le> length (parts (parse_path pattern))"
    then have "list_all (\<lambda>(r, f). path_match fm False (parse_path f) pattern = Inr False)
        (candidates rootdir tree)"
      using pl no_match_multi [of _ pattern fm]
      unfolding candidates_names [of rootdir tree, symmetric] by (auto simp: list_all_iff)
    then show "find_files fm pattern rootdir tree exceptions = ([], None, True)"
      by (simp add: find_files_def find_in_none) }
  { assume "valid_pattern pattern \<and> list_all valid_pattern exceptions"
    then show "map path_name (fst (find_files fm pattern rootdir tree exceptions)) =
          filter (selected fm pattern exceptions) (all_files tree)"
      using names_of_selected [of "candidates rootdir tree" "selected fm pattern exceptions"] pl
      by (simp add: find_files_def find_in_valid candidates_names) }
qed

theorem find_files_base_name_only_witness:
  "list_all plain_name (all_files (Dir [''u.XY'', ''log''] [(''s'', Dir [''p.xy'', ''c_p.xy''] [])])) \<and>
   parse_path ''*.xy'' = \<lparr>anchor = [], parts = [''*.xy'']\<rparr> \<and>
   2 \<le> length (parts (parse_path ''s/*.xy'')) \<and>
   find_files fnmatch_glob ''s/*.xy'' \<lparr>anchor = [], parts = [''r'']\<rparr>
     (Dir [''u.XY'', ''log''] [(''s'', Dir [''p.xy'', ''c_p.xy''] [])]) [] = ([], None, True) \<and>
   valid_pattern ''*.xy'' \<and> list_all valid_pattern [''c_*''] \<and>
   map path_name (fst (find_files fnmatch_glob ''*.xy'' \<lparr>anchor = [], parts = [''r'']\<rparr>
     (Dir [''u.XY'', ''log''] [(''s'', Dir [''p.xy'', ''c_p.xy''] [])]) [''c_*'']))
     = [''u.XY'', ''p.xy'']"
  using
    find_files_base_name_only [of "Dir [''u.XY'', ''log''] [(''s'', Dir [''p.xy'', ''c_p.xy''] [])]"
      "''s/*.xy''" "''*.xy''" fnmatch_glob "\<lparr>anchor = [], parts = [''r'']\<rparr>" "[]"]
    find_files_base_name_only [of "Dir [''u.XY'', ''log''] [(''s'', Dir [''p.xy'', ''c_p.xy''] [])]"
      "''*.xy''" "''*.xy''" fnmatch_glob "\<lparr>anchor = [], parts = [''r'']\<rparr>" "[''c_*'']"]
    sample_patterns_valid sample_scan sample_scan_two_components sample_tree_plain
  by (simp add: path_name_def parse_path_def split_on_def startswith_def)

section \<open>Properties of the decorator and of the main program\<close>

lemma read_file_decorator_catches: "raises_exceptions_only h \<Longrightarrow> \<exists>r. read_file_decorator h f = (file_events h f, Inr r)"
  by (auto simp: raises_exceptions_only_def read_file_decorator_def file_events_def split: sum.splits exn.splits)

lemma run_files_all:
  assumes "raises_exceptions_only h"
  shows "run_files h fs = (concat (map (file_events h) fs), None)"
proof (induction fs)
  case Nil show ?case by simp
next
  case (Cons f fs)
  obtain r where "read_file_decorator h f = (file_events h f, Inr r)"
    using read_file_decorator_catches[OF assms] by blast
  then show ?case using Cons by (simp add: and_then_def)
qed

lemma and_then_normal: "and_then (evs, None) (evs', r) = (evs @ evs', r)"
  by (simp add: and_then_def)

lemma scan_and_run_events:
  assumes "raises_exceptions_only h" "valid_pattern pattern" "list_all valid_pattern exceptions"
  shows "scan_and_run fm pattern exceptions h target =
    (scan_events fm pattern exceptions h target, None)"
  using assms(2,3)
  by (simp add: scan_and_run_def find_files_def find_in_valid run_files_all [OF assms(1)]
      and_then_normal scan_events_def Let_def)

lemma main_path_events:
  assumes "raises_exceptions_only v" "\<forall>a b. raises_exceptions_only (d a b)"
    "raises_exceptions_only f" "valid_options opt"
  shows "main_path fm opt v d f target = (path_events fm opt v d f target, None)"
proof -
  have p: "valid_pattern (VTK_FILE opt)" "valid_pattern (CLOUD_FILE opt)"
    "valid_pattern (RES_FILE opt)" "valid_pattern (DAT_FILE opt)" "valid_pattern (XY_FILE opt)"
    "valid_pattern (FORCE_FILE opt)"
    using assms(4) by (simp_all add: valid_options_def)
  have d: "raises_exceptions_only (d a b)" for a b using assms(2) by simp
  show ?thesis
    unfolding main_path_def path_events_def
    by (simp add: scan_and_run_events assms(1,3) d p and_then_normal)
qed

lemma main_loop_events:
  assumes "raises_exceptions_only v" "\<forall>a b. raises_exceptions_only (d a b)"
    "raises_exceptions_only f" "valid_options opt"
  shows "main_loop fm opt v d f targets = (concat (map (path_events fm opt v d f) targets), None)"
  by (induction targets) (simp_all add: main_path_events [OF assms] and_then_normal)

lemma sample_handler_ordinary:
  "raises_exceptions_only sample_handler"
  "\<forall>a b. raises_exceptions_only ((\<lambda>a b. sample_handler) a b)"
  by (auto simp: raises_exceptions_only_def sample_handler_def)

lemma sample_options_valid: "valid_options sample_options"
  by (simp add: valid_options_def sample_options_def valid_pattern_def parse_path_def
      split_on_def startswith_def)

lemma sample_batch:
  "run_files sample_handler
     [\<lparr>anchor = [], parts = [''r'', ''u.xy'']\<rparr>, \<lparr>anchor = [], parts = [''r'', ''p.xy'']\<rparr>,
      \<lparr>anchor = [], parts = [''r'', ''k.xy'']\<rparr>]
   = ([Processing \<lparr>anchor = [], parts = [''r'', ''u.xy'']\<rparr>,
       Produced \<lparr>anchor = [], parts = [''r'', ''u.xy'']\<rparr> ''u.png'',
       Processing \<lparr>anchor = [], parts = [''r'', ''p.xy'']\<rparr>,
       Failed ''p.xy'' (Exception ''ValueError''),
       Processing \<lparr>anchor = [], parts = [''r'', ''k.xy'']\<rparr>,
       Produced \<lparr>anchor = [], parts = [''r'', ''k.xy'']\<rparr> ''k.png''], None)"
  by (simp add: sample_handler_def read_file_decorator_def and_then_def path_name_def
      path_stem_def rfind_dot_def Let_def)

lemma sample_main:
  "main fnmatch_glob sample_options sample_handler (\<lambda>a b. sample_handler) sample_handler
   = ([Looking ''*.vtk'', NotFound ''*.vtk'', Looking ''res*'', NotFound ''res*'',
       Looking ''*.dat'', NotFound ''*.dat'', Looking ''*.xy'',
       Processing \<lparr>anchor = [], parts = [''r'', ''u.xy'']\<rparr>,
       Produced \<lparr>anchor = [], parts = [''r'', ''u.xy'']\<rparr> ''u.png'',
       Processing \<lparr>anchor = [], parts = [''r'', ''p.xy'']\<rparr>,
       Failed ''p.xy'' (Exception ''ValueError''),
       Processing \<lparr>anchor = [], parts = [''r'', ''k.xy'']\<rparr>,
       Produced \<lparr>anchor = [], parts = [''r'', ''k.xy'']\<rparr> ''k.png'',
       Looking ''f*'', NotFound ''f*''], Exit 0)"
  by (simp add: main_def main_path_def scan_and_run_def sample_options_def find_files_eval
      sample_handler_def read_file_decorator_def and_then_def path_name_def
      path_stem_def rfind_dot_def)

lemma sample_batch_events:
  "concat (map (file_events sample_handler)
     [\<lparr>anchor = [], parts = [''r'', ''u.xy'']\<rparr>, \<lparr>anchor = [], parts = [''r'', ''p.xy'']\<rparr>,
      \<lparr>anchor = [], parts = [''r'', ''k.xy'']\<rparr>])
   = [Processing \<lparr>anchor = [], parts = [''r'', ''u.xy'']\<rparr>,
       Produced \<lparr>anchor = [], parts = [''r'', ''u.xy'']\<rparr> ''u.png'',
       Processing \<lparr>anchor = [], parts = [''r'', ''p.xy'']\<rparr>,
       Failed ''p.xy'' (Exception ''ValueError''),
       Processing \<lparr>anchor = [], parts = [''r'', ''k.xy'']\<rparr>,
       Produced \<lparr>anchor = [], parts = [''r'', ''k.xy'']\<rparr> ''k.png'']"
  by (simp add: file_events_def sample_handler_def path_name_def path_stem_def rfind_dot_def
      Let_def)

lemma sample_events:
  "concat (map (path_events fnmatch_glob sample_options sample_handler (\<lambda>a b. sample_handler)
     sample_handler) (paths sample_options))
   = [Looking ''*.vtk'', NotFound ''*.vtk'', Looking ''res*'', NotFound ''res*'',
       Looking ''*.dat'', NotFound ''*.dat'', Looking ''*.xy'',
       Processing \<lparr>anchor = [], parts = [''r'', ''u.xy'']\<rparr>,
       Produced \<lparr>anchor = [], parts = [''r'', ''u.xy'']\<rparr> ''u.png'',
       Processing \<lparr>anchor = [], parts = [''r'', ''p.xy'']\<rparr>,
       Failed ''p.xy'' (Exception ''ValueError''),
       Processing \<lparr>anchor = [], parts = [''r'', ''k.xy'']\<rparr>,
       Produced \<lparr>anchor = [], parts = [''r'', ''k.xy'']\<rparr> ''k.png'',
       Looking ''f*'', NotFound ''f*'']"
  by (simp add: path_events_def scan_events_def selected_def matches_def sample_options_def
      candidates_def path_match_def parse_path_def split_on_def startswith_def path_div_def
      Let_def fnmatch_glob_def lower_char_def file_events_def sample_handler_def path_name_def
      path_stem_def rfind_dot_def)

text \<open>
  Claim C7. An exception raised while a file is processed is caught at that file: the
  name of the file is printed with the exception and the loop goes on with the next
  file, so that a batch of files gives, file after file, either what the handler produced
  or the diagnostic. The main program runs, for every path and each of its five scans,
  the handler on every selected file in this way, and then ends with exit code 0,
  however many files failed. (The wrapper catches instances of \<open>Exception\<close>; the
  patterns of the options are patterns that \<open>match\<close> accepts.)
\<close>

theorem per_file_isolation:
  "(raises_exceptions_only h \<longrightarrow>
      run_files h batch = (concat (map (file_events h) batch), None)) \<and>
   (raises_exceptions_only v \<and> (\<forall>a b. raises_exceptions_only (d a b)) \<and>
    raises_exceptions_only f \<and> valid_options opt \<longrightarrow>
      main fm opt v d f = (concat (map (path_events fm opt v d f) (paths opt)), Exit 0))"
proof (intro impI conjI)
  assume "raises_exceptions_only h"
  then show "run_files h batch = (concat (map (file_events h) batch), None)"
    by (rule run_files_all)
next
  assume a: "raises_exceptions_only v \<and> (\<forall>a b. raises_exceptions_only (d a b)) \<and>
    raises_exceptions_only f \<and> valid_options opt"
  then have "main_loop fm opt v d f (paths opt) =
      (concat (map (path_events fm opt v d f) (paths opt)), None)"
    by (intro main_loop_events) auto
  then show "main fm opt v d f = (concat (map (path_events fm opt v d f) (paths opt)), Exit 0)"
    by (simp add: main_def)
qed

theorem per_file_isolation_witness:
  "raises_exceptions_only sample_handler \<and>
   run_files sample_handler
     [\<lparr>anchor = [], parts = [''r'', ''u.xy'']\<rparr>, \<lparr>anchor = [], parts = [''r'', ''p.xy'']\<rparr>,
      \<lparr>anchor = [], parts = [''r'', ''k.xy'']\<rparr>]
   = ([Processing \<lparr>anchor = [], parts = [''r'', ''u.xy'']\<rparr>,
       Produced \<lparr>anchor = [], parts = [''r'', ''u.xy'']\<rparr> ''u.png'',
       Processing \<lparr>anchor = [], parts = [''r'', ''p.xy'']\<rparr>,
       Failed ''p.xy'' (Exception ''ValueError''),
       Processing \<lparr>anchor = [], parts = [''r'', ''k.xy'']\<rparr>,
       Produced \<lparr>anchor = [], parts = [''r'', ''k.xy'']\<rparr> ''k.png''], None) \<and>
   valid_options sample_options \<and>
   main fnmatch_glob sample_options sample_handler (\<lambda>a b. sample_handler) sample_handler
   = ([Looking ''*.vtk'', NotFound ''*.vtk'', Looking ''res*'', NotFound ''res*'',
       Looking ''*.dat'', NotFound ''*.dat'', Looking ''*.xy'',
       Processing \<lparr>anchor = [], parts = [''r'', ''u.xy'']\<rparr>,
       Produced \<lparr>anchor = [], parts = [''r'', ''u.xy'']\<rparr> ''u.png'',
       Processing \<lparr>anchor = [], parts = [''r'', ''p.xy'']\<rparr>,
       Failed ''p.xy'' (Exception ''ValueError''),
       Processing \<lparr>anchor = [], parts = [''r'', ''k.xy'']\<rparr>,
       Produced \<lparr>anchor = [], parts = [''r'', ''k.xy'']\<rparr> ''k.png'',
       Looking ''f*'', NotFound ''f*''], Exit 0)"
proof -
  have h: "raises_exceptions_only sample_handler \<and>
      (\<forall>a b. raises_exceptions_only ((\<lambda>a b. sample_handler) a b)) \<and>
      raises_exceptions_only sample_handler \<and> valid_options sample_options"
    using sample_handler_ordinary sample_options_valid by simp
  note t = per_file_isolation [of sample_handler
      "[\<lparr>anchor = [], parts = [''r'', ''u.xy'']\<rparr>, \<lparr>anchor = [], parts = [''r'', ''p.xy'']\<rparr>,
      \<lparr>anchor = [], parts = [''r'', ''k.xy'']\<rparr>]"
      sample_handler "\<lambda>a b. sample_handler" sample_handler sample_options fnmatch_glob]
  have b: "run_files sample_handler
     [\<lparr>anchor = [], parts = [''r'', ''u.xy'']\<rparr>, \<lparr>anchor = [], parts = [''r'', ''p.xy'']\<rparr>,
      \<lparr>anchor = [], parts = [''r'', ''k.xy'']\<rparr>]
     = (concat (map (file_events sample_handler)
     [\<lparr>anchor = [], parts = [''r'', ''u.xy'']\<rparr>, \<lparr>anchor = [], parts = [''r'', ''p.xy'']\<rparr>,
      \<lparr>anchor = [], parts = [''r'', ''k.xy'']\<rparr>]), None)"
    using t h by blast
  have m: "main fnmatch_glob sample_options sample_handler (\<lambda>a b. sample_handler) sample_handler
     = (concat (map (path_events fnmatch_glob sample_options sample_handler
          (\<lambda>a b. sample_handler) sample_handler) (paths sample_options)), Exit 0)"
    using t h by blast
  show ?thesis
    unfolding b m sample_batch_events sample_events
    using sample_handler_ordinary(1) sample_options_valid by simp
qed

section \<open>Properties of \<open>read_forces\<close>\<close>

lemma upt_three: "[s ..< s + 3] = [s, s + 1, s + 2]"
  by (simp add: upt_conv_Cons numeral_3_eq_3)

lemma length_three: "length xs = 3 \<Longrightarrow> \<exists>a b c. xs = [a, b, c]"
  by (auto simp: length_Suc_conv eval_nat_numeral)

lemma iloc_sum:
  "iloc data (map (\<lambda>k. idx + 3 * k) [0 ..< n]) = Inr cs \<Longrightarrow>
     sum_axis1 rsum (nrows data) cs = summed data rsum n idx 0"
  by (auto simp: iloc_def sum_axis1_def summed_def comp_def split: if_splits)

lemma iloc_ok:
  "n = 0 \<or> idx + 3 * n \<le> length (columns data) + 2 \<Longrightarrow>
     \<exists>cs. iloc data (map (\<lambda>k. idx + 3 * k) [0 ..< n]) = Inr cs"
  by (auto simp: iloc_def list_all_iff)

lemma sum_loop_step:
  "sum_loop data rsum n ((idx, l) # rest) df = Inr r \<Longrightarrow>
     sum_loop data rsum n rest (assign l (summed data rsum n idx 0) df) = Inr r"
  by (cases "iloc data (map (\<lambda>k. idx + 3 * k) [0 ..< n])") (simp_all add: iloc_sum)

lemma sum_loop_ok:
  "n = 0 \<or> idx + 3 * n \<le> length (columns data) + 2 \<Longrightarrow>
     sum_loop data rsum n ((idx, l) # rest) df =
       sum_loop data rsum n rest (assign l (summed data rsum n idx 0) df)"
proof -
  assume "n = 0 \<or> idx + 3 * n \<le> length (columns data) + 2"
  then obtain cs where c: "iloc data (map (\<lambda>k. idx + 3 * k) [0 ..< n]) = Inr cs"
    using iloc_ok [of n idx data] by blast
  show ?thesis unfolding sum_loop.simps Let_def c by (simp add: iloc_sum [OF c])
qed

lemma assign_three:
  assumes "l0 \<noteq> l1" "l0 \<noteq> l2" "l1 \<noteq> l2" "l0 \<noteq> ''Time''" "l1 \<noteq> ''Time''" "l2 \<noteq> ''Time''"
  shows "assign l2 v2 (assign l1 v1 (assign l0 v0 (assign ''Time'' t []))) =
    [(''Time'', t), (l0, v0), (l1, v1), (l2, v2)]"
  using assms by auto

lemma sum_contribs_Inr:
  assumes "labels_ok comps label" "sum_contribs data rsum comps start label n = Inr df"
  shows "df = summed_table data rsum comps label n start"
proof -
  obtain c0 c1 c2 where c: "comps = [c0, c1, c2]"
    using assms(1) length_three [of comps] by (auto simp: labels_ok_def)
  have d: "label @ c0 \<noteq> label @ c1" "label @ c0 \<noteq> label @ c2" "label @ c1 \<noteq> label @ c2"
    "label @ c0 \<noteq> ''Time''" "label @ c1 \<noteq> ''Time''" "label @ c2 \<noteq> ''Time''"
    using assms(1) by (auto simp: labels_ok_def c)
  obtain cs where i: "iloc data [0] = Inr cs"
    using assms(2) by (cases "iloc data [0]") (simp_all add: sum_contribs_def)
  then have h: "hd cs = columns data ! 0" by (auto simp: iloc_def split: if_splits)
  have "sum_loop data rsum n [(start, label @ c0), (start + 1, label @ c1), (start + 2, label @ c2)]
      (assign ''Time'' (columns data ! 0) []) = Inr df"
    using assms(2) by (simp add: sum_contribs_def i h c upt_three Let_def)
  from sum_loop_step [OF sum_loop_step [OF sum_loop_step [OF this]]]
  have "df = assign (label @ c2) (summed data rsum n (start + 2) 0)
         (assign (label @ c1) (summed data rsum n (start + 1) 0)
         (assign (label @ c0) (summed data rsum n start 0) (assign ''Time'' (columns data ! 0) [])))"
    by simp
  then show ?thesis unfolding assign_three [OF d]
    by (simp add: summed_table_def c summed_def)
qed

lemma sum_contribs_ok:
  assumes "labels_ok comps label" "0 < length (columns data)"
    "n = 0 \<or> start + 3 * n \<le> length (columns data)"
  shows "sum_contribs data rsum comps start label n = Inr (summed_table data rsum comps label n start)"
proof -
  obtain c0 c1 c2 where c: "comps = [c0, c1, c2]"
    using assms(1) length_three [of comps] by (auto simp: labels_ok_def)
  have i: "iloc data [0] = Inr [columns data ! 0]" using assms(2) by (simp add: iloc_def)
  have b: "n = 0 \<or> start + 3 * n \<le> length (columns data) + 2"
    "n = 0 \<or> Suc start + 3 * n \<le> length (columns data) + 2"
    "n = 0 \<or> Suc (Suc start) + 3 * n \<le> length (columns data) + 2"
    using assms(3) by auto
  have "sum_contribs data rsum comps start label n =
     sum_loop data rsum n
       [(start, label @ c0), (Suc start, label @ c1), (Suc (Suc start), label @ c2)]
       (assign ''Time'' (columns data ! 0) [])"
    by (simp add: sum_contribs_def i c upt_three Let_def del: sum_loop.simps assign.simps)
  also have "\<dots> = sum_loop data rsum n [(Suc start, label @ c1), (Suc (Suc start), label @ c2)]
       (assign (label @ c0) (summed data rsum n start 0) (assign ''Time'' (columns data ! 0) []))"
    by (rule sum_loop_ok [OF b(1)])
  also have "\<dots> = sum_loop data rsum n [(Suc (Suc start), label @ c2)]
       (assign (label @ c1) (summed data rsum n (Suc start) 0)
       (assign (label @ c0) (summed data rsum n start 0) (assign ''Time'' (columns data ! 0) [])))"
    by (rule sum_loop_ok [OF b(2)])
  also have "\<dots> = sum_loop data rsum n []
       (assign (label @ c2) (summed data rsum n (Suc (Suc start)) 0)
       (assign (label @ c1) (summed data rsum n (Suc start) 0)
       (assign (label @ c0) (summed data rsum n start 0) (assign ''Time'' (columns data ! 0) []))))"
    by (rule sum_loop_ok [OF b(3)])
  finally obtain df where "sum_contribs data rsum comps start label n = Inr df"
    by (simp del: assign.simps)
  then show ?thesis using sum_contribs_Inr [OF assms(1)] by simp
qed

lemma summed_none: "summed data rsum 0 base a = replicate (nrows data) (rsum [])"
  by (simp add: summed_def map_replicate_const)

lemma summed_table_none:
  "summed_table data rsum comps label 0 base = empty_sum_table data rsum comps label"
  by (simp add: summed_table_def empty_sum_table_def summed_none)

lemma sample_labels_ok: "labels_ok [''x'', ''y'', ''z''] ''F''" "labels_ok [''x'', ''y'', ''z''] ''M''"
  by (simp_all add: labels_ok_def)

lemma sample_header:
  "search_group ''forces('' sample_forces_text = Some ''pressure viscous''"
  "search_group ''forces('' time_only_text = None"
  by (simp_all add: sample_forces_text_def time_only_text_def match_group_at_def startswith_def
      Let_def)

lemma sample_counts:
  "n_contribs sample_forces_text = 2" "n_contribs time_only_text = 0"
  unfolding n_contribs_def sample_header by (simp_all add: split_ws_def is_space_def)

lemma sample_tables:
  "summed_table sample_frame sum_list [''x'', ''y'', ''z''] ''F'' 2 1 =
     [(''Time'', [1, 2]), (''Fx'', [11, 22]), (''Fy'', [33, 44]), (''Fz'', [55, 66])]"
  "summed_table sample_frame sum_list [''x'', ''y'', ''z''] ''M'' 2 (1 + 3 * 2) =
     [(''Time'', [1, 2]), (''Mx'', [8, 8]), (''My'', [10, 10]), (''Mz'', [12, 12])]"
  "empty_sum_table time_only_frame sum_list [''x'', ''y'', ''z''] ''F'' =
     [(''Time'', [1, 2]), (''Fx'', [0, 0]), (''Fy'', [0, 0]), (''Fz'', [0, 0])]"
  "empty_sum_table time_only_frame sum_list [''x'', ''y'', ''z''] ''M'' =
     [(''Time'', [1, 2]), (''Mx'', [0, 0]), (''My'', [0, 0]), (''Mz'', [0, 0])]"
  by (simp_all add: summed_table_def summed_def empty_sum_table_def sample_frame_def
      time_only_frame_def upt_conv_Cons numeral_2_eq_2)

lemma sample_width: "length (columns sample_frame) = 13" "length (columns time_only_frame) = 1"
  by (simp_all add: sample_frame_def time_only_frame_def)

lemma read_forces_returns:
  assumes "labels_ok comps FL" "labels_ok comps ML"
    and "read_csv (remove_brackets content) = Some data"
    and "1 + 6 * n_contribs content \<le> length (columns data)"
  shows "read_forces read_csv rsum comps FL ML content =
    Inr (summed_table data rsum comps FL (n_contribs content) 1,
         summed_table data rsum comps ML (n_contribs content) (1 + 3 * n_contribs content))"
proof -
  have "sum_contribs data rsum comps 1 FL (n_contribs content) =
      Inr (summed_table data rsum comps FL (n_contribs content) 1)"
    "sum_contribs data rsum comps (1 + 3 * n_contribs content) ML (n_contribs content) =
      Inr (summed_table data rsum comps ML (n_contribs content) (1 + 3 * n_contribs content))"
    using assms by (auto intro!: sum_contribs_ok)
  then show ?thesis using assms(3) by (simp add: read_forces_def Let_def)
qed

text \<open>
  Claim C1, as stated: when no \<open>forces(...)\<close> is found, \<open>n = 0\<close> yields an empty
  result. On a file without it whose table has its time column, the aggregator returns
  two tables of four columns each, the summed columns holding the empty sum in every row.
\<close>

theorem read_forces_no_contribution_not_empty:
  "search_group ''forces('' time_only_text = None \<and>
   n_contribs time_only_text = 0 \<and>
   read_forces (\<lambda>s. Some time_only_frame) sum_list [''x'', ''y'', ''z''] ''F'' ''M'' time_only_text
     = Inr ([(''Time'', [1, 2]), (''Fx'', [0, 0]), (''Fy'', [0, 0]), (''Fz'', [0, 0])],
            [(''Time'', [1, 2]), (''Mx'', [0, 0]), (''My'', [0, 0]), (''Mz'', [0, 0])])"
proof -
  have "read_forces (\<lambda>s. Some time_only_frame) sum_list [''x'', ''y'', ''z''] ''F'' ''M''
      time_only_text =
    Inr (summed_table time_only_frame sum_list [''x'', ''y'', ''z''] ''F'' 0 1,
         summed_table time_only_frame sum_list [''x'', ''y'', ''z''] ''M'' 0 (1 + 3 * 0))"
    using read_forces_returns [of "[''x'', ''y'', ''z'']" "''F''" "''M''"
        "\<lambda>s. Some time_only_frame" time_only_text time_only_frame sum_list]
    by (simp add: sample_labels_ok sample_counts sample_width)
  then show ?thesis
    by (simp add: sample_header sample_counts summed_table_none sample_tables)
qed

text \<open>
  Claim C1, amended. The number \<open>n\<close> of contributions is the number of entries of the
  list in the first \<open>forces(...)\<close> of the file, and \<open>0\<close> when there is none.
  Whenever the aggregator returns its two tables, each holds the time column and, for the
  axis components 0, 1 and 2, the column whose value in every row is the sum over the
  contributions \<open>k\<close> below \<open>n\<close> of the input column \<open>base + a + 3k\<close>, with
  \<open>base = 1\<close> for the forces and \<open>base = 1 + 3n\<close> for the moments. It returns them
  whenever the parsed table has the \<open>1 + 6n\<close> columns that are read. For \<open>n = 0\<close>
  the result is not empty: on a table with at least its time column, both tables hold the
  time column and three columns of the empty sum.
\<close>

theorem read_forces_sums_contributions:
  "labels_ok comps FL \<and> labels_ok comps ML \<longrightarrow>
     (search_group ''forces('' content = None \<longrightarrow> n_contribs content = 0) \<and>
     (search_group ''forces('' content = Some g \<longrightarrow> n_contribs content = length (split_ws g)) \<and>
     (read_forces read_csv rsum comps FL ML content = Inr (forces, moments) \<longrightarrow>
        (\<exists>data. read_csv (remove_brackets content) = Some data \<and>
           forces = summed_table data rsum comps FL (n_contribs content) 1 \<and>
           moments = summed_table data rsum comps ML (n_contribs content) (1 + 3 * n_contribs content))) \<and>
     (read_csv (remove_brackets content) = Some data \<and>
      1 + 6 * n_contribs content \<le> length (columns data) \<longrightarrow>
        read_forces read_csv rsum comps FL ML content =
          Inr (summed_table data rsum comps FL (n_contribs content) 1,
               summed_table data rsum comps ML (n_contribs content) (1 + 3 * n_contribs content))) \<and>
     (search_group ''forces('' content = None \<and>
      read_csv (remove_brackets content) = Some data \<and> 0 < length (columns data) \<longrightarrow>
        read_forces read_csv rsum comps FL ML content =
          Inr (empty_sum_table data rsum comps FL, empty_sum_table data rsum comps ML))"
proof (intro impI conjI)
  assume l: "labels_ok comps FL \<and> labels_ok comps ML"
  show "n_contribs content = 0" if "search_group ''forces('' content = None"
    using that by (simp add: n_contribs_def)
  show "n_contribs content = length (split_ws g)" if "search_group ''forces('' content = Some g"
    using that by (simp add: n_contribs_def)
  { assume r: "read_forces read_csv rsum comps FL ML content = Inr (forces, moments)"
    then obtain data where d: "read_csv (remove_brackets content) = Some data"
      by (cases "read_csv (remove_brackets content)") (simp_all add: read_forces_def Let_def)
    from r have "sum_contribs data rsum comps 1 FL (n_contribs content) = Inr forces"
      "sum_contribs data rsum comps (1 + 3 * n_contribs content) ML (n_contribs content) = Inr moments"
      by (auto simp: read_forces_def Let_def d split: sum.splits)
    then show "\<exists>data. read_csv (remove_brackets content) = Some data \<and>
           forces = summed_table data rsum comps FL (n_contribs content) 1 \<and>
           moments = summed_table data rsum comps ML (n_contribs content) (1 + 3 * n_contribs content)"
      using d l sum_contribs_Inr by blast }
  { assume a: "read_csv (remove_brackets content) = Some data \<and>
      1 + 6 * n_contribs content \<le> length (columns data)"
    then show "read_forces read_csv rsum comps FL ML content =
          Inr (summed_table data rsum comps FL (n_contribs content) 1,
               summed_table data rsum comps ML (n_contribs content) (1 + 3 * n_contribs content))"
      using l by (intro read_forces_returns) auto }
  { assume a: "search_group ''forces('' content = None \<and>
      read_csv (remove_brackets content) = Some data \<and> 0 < length (columns data)"
    then have n: "n_contribs content = 0" by (simp add: n_contribs_def)
    have "read_forces read_csv rsum comps FL ML content =
          Inr (summed_table data rsum comps FL (n_contribs content) 1,
               summed_table data rsum comps ML (n_contribs content) (1 + 3 * n_contribs content))"
      using l a n by (intro read_forces_returns) (auto simp: Suc_le_eq)
    then show "read_forces read_csv rsum comps FL ML content =
          Inr (empty_sum_table data rsum comps FL, empty_sum_table data rsum comps ML)"
      by (simp add: n summed_table_none) }
qed

theorem read_forces_sums_contributions_witness:
  "labels_ok [''x'', ''y'', ''z''] ''F'' \<and> labels_ok [''x'', ''y'', ''z''] ''M'' \<and>
   search_group ''forces('' sample_forces_text = Some ''pressure viscous'' \<and>
   n_contribs sample_forces_text = 2 \<and>
   1 + 6 * n_contribs sample_forces_text \<le> length (columns sample_frame) \<and>
   read_forces (\<lambda>s. Some sample_frame) sum_list [''x'', ''y'', ''z''] ''F'' ''M''
     sample_forces_text
     = Inr ([(''Time'', [1, 2]), (''Fx'', [11, 22]), (''Fy'', [33, 44]), (''Fz'', [55, 66])],
            [(''Time'', [1, 2]), (''Mx'', [8, 8]), (''My'', [10, 10]), (''Mz'', [12, 12])]) \<and>
   search_group ''forces('' time_only_text = None \<and>
   0 < length (columns time_only_frame) \<and>
   read_forces (\<lambda>s. Some time_only_frame) sum_list [''x'', ''y'', ''z''] ''F'' ''M''
     time_only_text
     = Inr ([(''Time'', [1, 2]), (''Fx'', [0, 0]), (''Fy'', [0, 0]), (''Fz'', [0, 0])],
            [(''Time'', [1, 2]), (''Mx'', [0, 0]), (''My'', [0, 0]), (''Mz'', [0, 0])])"
proof -
  have a1: "(\<lambda>s. Some sample_frame) (remove_brackets sample_forces_text) = Some sample_frame \<and>
      1 + 6 * n_contribs sample_forces_text \<le> length (columns sample_frame)"
    by (simp add: sample_counts sample_width)
  have a2: "search_group ''forces('' time_only_text = None \<and>
      (\<lambda>s. Some time_only_frame) (remove_brackets time_only_text) = Some time_only_frame \<and>
      0 < length (columns time_only_frame)"
    by (simp add: sample_header sample_width)
  have l: "labels_ok [''x'', ''y'', ''z''] ''F'' \<and> labels_ok [''x'', ''y'', ''z''] ''M''"
    by (simp add: sample_labels_ok)
  have r1: "read_forces (\<lambda>s. Some sample_frame) sum_list [''x'', ''y'', ''z''] ''F'' ''M''
     sample_forces_text =
       Inr (summed_table sample_frame sum_list [''x'', ''y'', ''z''] ''F''
              (n_contribs sample_forces_text) 1,
            summed_table sample_frame sum_list [''x'', ''y'', ''z''] ''M''
              (n_contribs sample_forces_text) (1 + 3 * n_contribs sample_forces_text))"
    using read_forces_sums_contributions [of "[''x'', ''y'', ''z'']" "''F''" "''M''"
      sample_forces_text g "\<lambda>s. Some sample_frame" sum_list forces moments sample_frame
      for g forces moments] l a1
    by blast
  have r2: "read_forces (\<lambda>s. Some time_only_frame) sum_list [''x'', ''y'', ''z''] ''F'' ''M''
      time_only_text =
       Inr (empty_sum_table time_only_frame sum_list [''x'', ''y'', ''z''] ''F'',
            empty_sum_table time_only_frame sum_list [''x'', ''y'', ''z''] ''M'')"
    using read_forces_sums_contributions [of "[''x'', ''y'', ''z'']" "''F''" "''M''"
      time_only_text g "\<lambda>s. Some time_only_frame" sum_list forces moments time_only_frame
      for g forces moments] l a2
    by blast
  show ?thesis
    unfolding r1 r2 sample_counts sample_tables sample_header sample_width
    using sample_labels_ok by simp
qed

end
